theory Spec2Isabelle
  imports Complex_Main "HOL-Library.Sublist" "HOL-Library.AList" "HOL-Library.Char_ord"
    "HOL-Library.List_Lexorder"
begin

section \<open>Python strings\<close>

text \<open>
  Strings are character lists. The functions below are the string operations of the
  Python library that the source calls, on ASCII text.
\<close>

datatype error = IndexError | ValueError | FileNotFoundError | ZeroDivisionError | URLError

text \<open>\<open>str.isdigit\<close> on one character, and the value of a decimal digit.\<close>

definition isdigit :: "char \<Rightarrow> bool" where
  "isdigit c \<longleftrightarrow> c \<in> set ''0123456789''"

definition digit_val :: "char \<Rightarrow> nat" where
  "digit_val c = of_char c - 48"

definition digit_chr :: "nat \<Rightarrow> char" where
  "digit_chr d = ''0123456789'' ! d"

text \<open>\<open>int(text)\<close> on a non-empty string of digits.\<close>

definition int_of_digits :: "string \<Rightarrow> nat" where
  "int_of_digits ds = foldl (\<lambda>n c. 10 * n + digit_val c) 0 ds"

text \<open>\<open>str(n)\<close> for an integer.\<close>

fun str_nat :: "nat \<Rightarrow> string" where
  "str_nat n = (if n < 10 then [digit_chr n] else str_nat (n div 10) @ [digit_chr (n mod 10)])"

declare str_nat.simps [simp del]

definition str_int :: "int \<Rightarrow> string" where
  "str_int i = (if i < 0 then CHR ''-'' # str_nat (nat (- i)) else str_nat (nat i))"

text \<open>\<open>str.lower\<close>.\<close>

definition lower_char :: "char \<Rightarrow> char" where
  "lower_char c =
     (case map_of (zip ''ABCDEFGHIJKLMNOPQRSTUVWXYZ'' ''abcdefghijklmnopqrstuvwxyz'') c of
        Some d \<Rightarrow> d
      | None \<Rightarrow> c)"

definition py_lower :: "string \<Rightarrow> string" where
  "py_lower s = map lower_char s"

text \<open>
  \<open>s.split(sep)\<close> for a non-empty separator: the pieces between the non-overlapping
  occurrences of \<open>sep\<close>, found from the left. The result is never empty. Every separator
  in the source is a non-empty literal.
\<close>

function split_from :: "string \<Rightarrow> string \<Rightarrow> string \<Rightarrow> string list" where
  "split_from sep acc [] = [rev acc]"
| "split_from sep acc (c # cs) =
     (if sep \<noteq> [] \<and> prefix sep (c # cs)
      then rev acc # split_from sep [] (drop (length sep) (c # cs))
      else split_from sep (c # acc) cs)"
  by pat_completeness auto
termination
  by (relation "measure (\<lambda>(sep, acc, s). length s)") (auto simp: neq_Nil_conv)

definition py_split :: "string \<Rightarrow> string \<Rightarrow> string list" where
  "py_split s sep = split_from sep [] s"

text \<open>The two-character separator \<open>"\\n"\<close> of line 481: a backslash followed by \<open>n\<close>.\<close>

definition backslash_n :: string where
  "backslash_n = [CHR 0x5C, CHR ''n'']"

text \<open>
  \<open>str(buf)\<close> for a \<open>bytes\<close> object (lines 140 and 143): the printed form \<open>b'...'\<close> of the
  bytes. The quote is the double quote when the bytes hold a single quote and no double
  quote, the single quote otherwise. The quote and the backslash are written with a
  backslash before them; tab, line feed and carriage return as a backslash and \<open>t\<close>, \<open>n\<close>,
  \<open>r\<close>; every other byte below 32 or above 126 as a backslash, \<open>x\<close> and two hexadecimal
  digits; every other byte as it is.
\<close>

definition hex_digit :: "nat \<Rightarrow> char" where
  "hex_digit d = ''0123456789abcdef'' ! d"

definition bytes_escape :: "char \<Rightarrow> char \<Rightarrow> string" where
  "bytes_escape q c =
     (if c = q \<or> c = CHR 0x5C then [CHR 0x5C, c]
      else if c = CHR 0x09 then [CHR 0x5C, CHR ''t'']
      else if c = CHR 0x0A then [CHR 0x5C, CHR ''n'']
      else if c = CHR 0x0D then [CHR 0x5C, CHR ''r'']
      else if (of_char c :: nat) < 32 \<or> 127 \<le> (of_char c :: nat)
      then [CHR 0x5C, CHR ''x'', hex_digit (of_char c div 16), hex_digit (of_char c mod 16)]
      else [c])"

definition str_of_bytes :: "string \<Rightarrow> string" where
  "str_of_bytes buf =
     (let q = (if CHR 0x27 \<in> set buf \<and> CHR 0x22 \<notin> set buf then CHR 0x22 else CHR 0x27)
      in [CHR ''b'', q] @ concat (map (bytes_escape q) buf) @ [q])"

text \<open>\<open>str.strip()\<close>: the white space of Python among the characters below 256.\<close>

definition isspace :: "char \<Rightarrow> bool" where
  "isspace c \<longleftrightarrow> (of_char c :: nat) \<in> set [9, 10, 11, 12, 13, 28, 29, 30, 31, 32, 133, 160]"

definition py_strip :: "string \<Rightarrow> string" where
  "py_strip s = rev (dropWhile isspace (rev (dropWhile isspace s)))"

section \<open>Opening a URL\<close>

text \<open>
  \<open>urllib.parse.quote(urlstring)\<close> (line 214), with \<open>/\<close> as the only additional safe
  character: letters, digits and \<open>_.-~/\<close> stay, every other character becomes \<open>%\<close> and two
  upper-case hexadecimal digits for each byte of its UTF-8 encoding.
\<close>

definition url_safe :: "char \<Rightarrow> bool" where
  "url_safe c \<longleftrightarrow>
     c \<in> set ''ABCDEFGHIJKLMNOPQRSTUVWXYZabcdefghijklmnopqrstuvwxyz0123456789_.-~/''"

definition percent :: "nat \<Rightarrow> string" where
  "percent n = [CHR ''%'', ''0123456789ABCDEF'' ! (n div 16), ''0123456789ABCDEF'' ! (n mod 16)]"

definition quote :: "string \<Rightarrow> string" where
  "quote s =
     concat (map (\<lambda>c. if url_safe c then [c]
                        else if (of_char c :: nat) < 128 then percent (of_char c)
                        else percent (192 + of_char c div 64) @ percent (128 + of_char c mod 64)) s)"

text \<open>
  What \<open>urllib.request.urlopen(url)\<close> does with a string before any network traffic. The
  request object strips the string and a wrapper \<open><URL:...>\<close> (\<open>unwrap\<close>), cuts a fragment
  off at the last \<open>#\<close> (\<open>splittag\<close>) and reads the type of the URL (\<open>splittype\<close>): the
  characters before the first colon, in lower case, when there is at least one and no
  slash among them. Without a type the request raises \<open>ValueError\<close>. The default opener has
  handlers for \<open>http\<close>, \<open>https\<close>, \<open>ftp\<close>, \<open>file\<close> and \<open>data\<close>; for any other type it raises
  \<open>URLError\<close>.
\<close>

definition unwrap :: "string \<Rightarrow> string" where
  "unwrap url =
     (let u = py_strip url;
          u1 = (if take 1 u = ''<'' \<and> take 1 (rev u) = ''>'' then py_strip (butlast (tl u)) else u)
      in if take 4 u1 = ''URL:'' then py_strip (drop 4 u1) else u1)"

definition splittag :: "string \<Rightarrow> string" where
  "splittag url =
     (if CHR ''#'' \<in> set url then rev (tl (dropWhile (\<lambda>c. c \<noteq> CHR ''#'') (rev url))) else url)"

definition splittype :: "string \<Rightarrow> string option" where
  "splittype url =
     (let scheme = takeWhile (\<lambda>c. c \<noteq> CHR ''/'' \<and> c \<noteq> CHR '':'') url
      in if scheme \<noteq> [] \<and> take 1 (drop (length scheme) url) = '':''
         then Some (py_lower scheme) else None)"

definition url_handlers :: "string list" where
  "url_handlers = [''http'', ''https'', ''ftp'', ''file'', ''data'']"

definition no_handler :: "string \<Rightarrow> bool" where
  "no_handler url \<longleftrightarrow>
     (case splittype (splittag (unwrap url)) of
        None \<Rightarrow> True
      | Some t \<Rightarrow> t \<notin> set url_handlers)"

section \<open>Natural order of file names\<close>

text \<open>
  \<open>re.split(r'(\\d+)', text)\<close>: the text cut into runs without a digit and runs of digits,
  alternating, beginning and ending with a run without a digit (which may be empty).
\<close>

function resplit :: "string \<Rightarrow> string list" where
  "resplit s =
     (let rest = dropWhile (\<lambda>c. \<not> isdigit c) s
      in if rest = [] then [takeWhile (\<lambda>c. \<not> isdigit c) s]
         else takeWhile (\<lambda>c. \<not> isdigit c) s # takeWhile isdigit rest #
              resplit (dropWhile isdigit rest))"
  by pat_completeness auto
termination
proof (relation "measure length", simp, goal_cases)
  case (1 s rest)
  then have ne: "dropWhile (\<lambda>c. \<not> isdigit c) s \<noteq> []"
    by auto
  then obtain a list where r: "dropWhile (\<lambda>c. \<not> isdigit c) s = a # list"
    by (metis neq_Nil_conv)
  have "isdigit a" using hd_dropWhile [OF ne] r by simp
  moreover have "length (a # list) \<le> length s"
    using length_dropWhile_le [of "\<lambda>c. \<not> isdigit c" s] r by simp
  moreover have "length (dropWhile isdigit list) \<le> length list"
    by (rule length_dropWhile_le)
  ultimately show ?case using 1 r by simp
qed

declare resplit.simps [simp del]

text \<open>
  \<open>atoi\<close> (lines 560-561) and \<open>naturalKeys\<close> (lines 563-564). A key is a list whose
  elements are integers or strings. Python compares two such lists element by element and
  raises a TypeError on an integer against a string; in two results of \<open>naturalKeys\<close> the
  integers stand at the odd positions and the strings at the even ones, so that comparison
  does not arise. The order below puts an integer before a string.
\<close>

datatype key_part = Num nat | Txt string

definition atoi :: "string \<Rightarrow> key_part" where
  "atoi text = (if text \<noteq> [] \<and> list_all isdigit text then Num (int_of_digits text) else Txt text)"

definition naturalKeys :: "string \<Rightarrow> key_part list" where
  "naturalKeys text = map atoi (resplit text)"

instantiation key_part :: linorder
begin

fun less_eq_key_part :: "key_part \<Rightarrow> key_part \<Rightarrow> bool" where
  "less_eq_key_part (Num a) (Num b) = (a \<le> b)"
| "less_eq_key_part (Txt a) (Txt b) = (a \<le> b)"
| "less_eq_key_part (Num a) (Txt b) = True"
| "less_eq_key_part (Txt a) (Num b) = False"

definition less_key_part :: "key_part \<Rightarrow> key_part \<Rightarrow> bool" where
  "less_key_part x y \<longleftrightarrow> x \<le> y \<and> \<not> y \<le> x"

instance
proof
  fix x y z :: key_part
  show "(x < y) = (x \<le> y \<and> \<not> y \<le> x)"
    by (simp add: less_key_part_def)
  show "x \<le> x"
    by (cases x) simp_all
  show "x \<le> y \<Longrightarrow> y \<le> z \<Longrightarrow> x \<le> z"
    by (cases x; cases y; cases z) auto
  show "x \<le> y \<Longrightarrow> y \<le> x \<Longrightarrow> x = y"
    by (cases x; cases y) auto
  show "x \<le> y \<or> y \<le> x"
    by (cases x; cases y) auto
qed

end

text \<open>\<open>filelist.sort(key=self.naturalKeys)\<close>: a stable sort by the key.\<close>

definition natural_sort :: "string list \<Rightarrow> string list" where
  "natural_sort filelist = sort_key naturalKeys filelist"

text \<open>\<open>int(''.join(list(filter(str.isdigit, file))))\<close> (lines 117, 527, 545).\<close>

definition digits_number :: "string \<Rightarrow> error + nat" where
  "digits_number file =
     (let ds = filter isdigit file in if ds = [] then Inl ValueError else Inr (int_of_digits ds))"

section \<open>Files\<close>

text \<open>
  A file has a modification time and contents. A directory tree is an association list
  from paths to files; its order is the order in which \<open>glob\<close> and \<open>listdir\<close> report the
  entries, which Python leaves unspecified. Only regular files are modelled.
\<close>

record fsfile =
  mtime :: real
  body :: string

type_synonym dir = "(string \<times> fsfile) list"

definition exists :: "dir \<Rightarrow> string \<Rightarrow> bool" where
  "exists d p \<longleftrightarrow> map_of d p \<noteq> None"

text \<open>\<open>os.remove\<close>: raises when the path does not exist.\<close>

definition os_remove :: "string \<Rightarrow> dir \<Rightarrow> error + dir" where
  "os_remove p d = (if exists d p then Inr (AList.delete p d) else Inl FileNotFoundError)"

text \<open>Creating or overwriting a file.\<close>

definition write_file :: "string \<Rightarrow> fsfile \<Rightarrow> dir \<Rightarrow> dir" where
  "write_file p f d = AList.update p f d"

text \<open>\<open>os.path.join(a, b)\<close> for a non-empty \<open>b\<close>.\<close>

definition path_join :: "string \<Rightarrow> string \<Rightarrow> string" where
  "path_join a b =
     (if prefix ''/'' b then b
      else if a = [] \<or> suffix ''/'' a then a @ b
      else a @ ''/'' @ b)"

text \<open>
  \<open>glob.glob(d + '/' + pre + '*' + suf)\<close>: the paths of the entries of directory \<open>d\<close>
  whose names begin with \<open>pre\<close> and end with \<open>suf\<close>, the two not overlapping.
\<close>

definition glob_match :: "string \<Rightarrow> string \<Rightarrow> string \<Rightarrow> bool" where
  "glob_match pre suf name \<longleftrightarrow>
     prefix pre name \<and> suffix suf name \<and> length pre + length suf \<le> length name"

definition in_dir :: "string \<Rightarrow> string \<Rightarrow> bool" where
  "in_dir d p \<longleftrightarrow> prefix (d @ ''/'') p \<and> CHR ''/'' \<notin> set (drop (length d + 1) p)"

definition glob :: "string \<Rightarrow> string \<Rightarrow> string \<Rightarrow> dir \<Rightarrow> string list" where
  "glob d pre suf fs =
     filter (\<lambda>p. in_dir d p \<and> glob_match pre suf (drop (length d + 1) p)) (map fst fs)"

section \<open>The controller object of djmarinara.py\<close>

text \<open>
  The class \<open>djmarinara\<close> keeps all of its state in instance attributes. The record below
  has one field per attribute that the control loop reads or writes. Python floats
  (times, durations, ratios) are modelled as reals, Python ints as \<open>int\<close>.
\<close>

record djstate =
  extensions :: "string list"
  mediapath :: string
  gastanklimit :: real
  listhash :: string
  maxlength :: real
  manifest :: "string list"
  crf :: int
  mincrf :: int
  maxcrf :: int
  targetspeed :: real
  preset :: int
  gastank :: real
  filenumber :: int
  elapsedtime :: real
  starttime :: real

text \<open>
  \<open>__init__\<close> (lines 40-68). The arguments are the constructor's keyword arguments that
  the control loop uses, and the lines of the file \<open>manifest\<close>. The attributes
  \<open>gastank\<close>, \<open>filenumber\<close>, \<open>elapsedtime\<close> and \<open>starttime\<close> are not assigned by
  \<open>__init__\<close>; they are assigned by \<open>initRun\<close> before the loop starts and are 0 here.
\<close>

definition init :: "string list \<Rightarrow> string \<Rightarrow> real \<Rightarrow> real \<Rightarrow> string list \<Rightarrow> djstate" where
  "init exts mpath limit target manifest_lines =
     \<lparr> extensions = exts, mediapath = mpath, gastanklimit = limit, listhash = [],
       maxlength = limit / 2, manifest = manifest_lines,
       crf = 17, mincrf = 17, maxcrf = 28, targetspeed = target, preset = 0,
       gastank = 0, filenumber = 0, elapsedtime = 0, starttime = 0 \<rparr>"

text \<open>\<open>clamp\<close> (lines 566-567): \<open>max(min(maxn, n), minn)\<close>.\<close>

definition clamp :: "int \<Rightarrow> int \<Rightarrow> int \<Rightarrow> int" where
  "clamp n minn maxn = max (min maxn n) minn"

text \<open>
  The tuning block of \<open>processFile\<close> (lines 267-280), run with the observed ratio after
  a production: first the quality factor, then the preset.
\<close>

definition tuneQuality :: "real \<Rightarrow> djstate \<Rightarrow> djstate" where
  "tuneQuality ratio s =
     (let s1 = (if ratio < targetspeed s then s\<lparr>crf := crf s + 1\<rparr>
                else if ratio > targetspeed s then s\<lparr>crf := crf s - 1\<rparr>
                else s);
          s2 = s1\<lparr>crf := clamp (crf s1) (mincrf s1) (maxcrf s1)\<rparr>
      in if ratio < targetspeed s2 - 0.5 \<and> preset s2 > 0 then s2\<lparr>preset := preset s2 - 1\<rparr>
         else if ratio > targetspeed s2 + 0.5 \<and> preset s2 < 8 then s2\<lparr>preset := preset s2 + 1\<rparr>
         else s2)"

section \<open>Gas tank\<close>

text \<open>
  \<open>checkGas\<close> (lines 149-159). The first argument is the value \<open>time.time()\<close> returns;
  the result is the returned level and the updated object.
\<close>

definition checkGas :: "real \<Rightarrow> djstate \<Rightarrow> real \<times> djstate" where
  "checkGas curtime s =
     (let newelapsed = curtime - starttime s;
          gasused = newelapsed - elapsedtime s;
          s' = s\<lparr>gastank := gastank s - gasused, elapsedtime := newelapsed\<rparr>
      in (gastank s', s'))"

text \<open>Line 260 of \<open>processFile\<close>: the duration of a produced segment is added to the tank.\<close>

definition addGas :: "real \<Rightarrow> djstate \<Rightarrow> djstate" where
  "addGas duration s = s\<lparr>gastank := gastank s + duration\<rparr>"

text \<open>
  \<open>initRun\<close> (lines 70-74). The first argument is \<open>time.time()\<close>, the second the number
  \<open>getFileNumber\<close> finds.
\<close>

definition initRun :: "real \<Rightarrow> int \<Rightarrow> djstate \<Rightarrow> djstate" where
  "initRun now lastnumber s =
     s\<lparr>gastank := 0, filenumber := lastnumber, elapsedtime := 0, starttime := now\<rparr>"

section \<open>Producing a segment\<close>

text \<open>
  The answers of the outside world during one call of \<open>processFile\<close>: the clock, the
  download and extraction (lines 216-229), \<open>ffprobe\<close>, the two \<open>ffmpeg\<close> runs and the two
  writes into the media directory. The scratch files of the working directory (the
  download, \<open>out.aac\<close>, the text file, the encoded video) are not tracked; these answers
  stand for them.
\<close>

record probe =
  pf_filename :: "string option"
  pf_title :: "string option"
  pf_artist :: "string option"
  pf_comment :: "string option"
  pf_duration :: "real option"

datatype copy_result = CopyDone | CopyFailed "string option"

record world =
  processstart :: real
  processend :: real
  acquired :: "string option"
  ffprobe :: "probe option"
  trueduration :: "real option"
  encoded :: "string option"
  copied :: copy_result
  chain_opened :: bool
  copytime :: real

text \<open>
  \<^item> \<open>processstart\<close>, \<open>processend\<close>: \<open>time.time()\<close> at lines 207 and 261;
  \<^item> \<open>acquired\<close>: the source file after download and unzipping, \<open>None\<close> when that raised,
    the empty string when the archive held no candidate;
  \<^item> \<open>ffprobe\<close>: the \<open>format\<close> object of the probe, \<open>None\<close> when its output is not JSON;
  \<^item> \<open>trueduration\<close>: the duration read after \<open>time=\<close>, \<open>None\<close> when it is not there;
  \<^item> \<open>encoded\<close>: the bytes of the encoded video, \<open>None\<close> when the file was not created;
  \<^item> \<open>copied\<close>: whether \<open>shutil.copy\<close> completed; when it failed, the bytes it left at
    the destination, if it created it;
  \<^item> \<open>chain_opened\<close>: whether the playlist file could be opened for writing;
  \<^item> \<open>copytime\<close>: the modification time the new files get.
\<close>

record filedata =
  fd_filename :: string
  fd_title :: string
  fd_artist :: "string option"
  fd_comments :: "string option"
  fd_duration :: real
  fd_playfile :: string

text \<open>
  \<open>convertFile\<close> (lines 291-440). \<open>Inl\<close> is an exception, \<open>Inr None\<close> the empty
  dictionary, \<open>Inr (Some d)\<close> a dictionary with the key \<open>playfile\<close>.
\<close>

definition convertFile :: "djstate \<Rightarrow> world \<Rightarrow> string \<Rightarrow> error + filedata option" where
  "convertFile s w file =
     (case ffprobe w of
        None \<Rightarrow> Inl ValueError
      | Some filejson \<Rightarrow>
          (case pf_filename filejson of
             None \<Rightarrow> Inr None
           | Some fname \<Rightarrow>
               (case pf_title filejson of
                  None \<Rightarrow> Inr None
                | Some title \<Rightarrow>
                    (case pf_duration filejson of
                       None \<Rightarrow> Inr None
                     | Some duration \<Rightarrow>
                         if duration > maxlength s then Inr None
                         else
                           (case trueduration w of
                              None \<Rightarrow> Inl IndexError
                            | Some convertedduration \<Rightarrow>
                                (case encoded w of
                                   None \<Rightarrow> Inl FileNotFoundError
                                 | Some bytes \<Rightarrow>
                                     if length bytes = 0 then Inr None
                                     else Inr (Some
                                       \<lparr> fd_filename = fname, fd_title = title,
                                         fd_artist = pf_artist filejson,
                                         fd_comments = pf_comment filejson,
                                         fd_duration = convertedduration,
                                         fd_playfile =
                                           ''media'' @ str_int (filenumber s + 1) @ ''.flv'' \<rparr>)))))))"

text \<open>The three lines of a playlist file of the ffconcat demuxer.\<close>

definition ffconcat :: "string \<Rightarrow> string \<Rightarrow> string" where
  "ffconcat a b =
     ''ffconcat version 1.0'' @ [CHR 0x0A] @ ''file '' @ a @ [CHR 0x0A] @ ''file '' @ b @ [CHR 0x0A]"

text \<open>The URL \<open>newfile\<close> of lines 210-214, \<open>protocol + "://" + parse.quote(urlstring)\<close>.\<close>

definition quoted_url :: "string \<Rightarrow> string" where
  "quoted_url file = (let parts = py_split file ''://'' in parts ! 0 @ ''://'' @ quote (parts ! 1))"

text \<open>
  \<open>processFile\<close> (lines 206-289). \<open>Inl\<close> is an exception that leaves the method (line 212
  is before the \<open>try\<close>); otherwise the result is the returned status, the object and the
  file tree. Every exception raised inside the \<open>try\<close> reaches line 283 and makes the method
  return 0 with the assignments made so far; the first of them is the one \<open>urlopen\<close>
  raises at line 216 for a URL it has no handler for.
\<close>

definition processFile ::
  "djstate \<Rightarrow> dir \<Rightarrow> world \<Rightarrow> string \<Rightarrow> error + (int \<times> djstate \<times> dir)" where
  "processFile s fs w file =
     (if length (py_split file ''://'') < 2 then Inl IndexError
      else if no_handler (quoted_url file) then Inr (0, s, fs)
      else
        (case acquired w of
           None \<Rightarrow> Inr (0, s, fs)
         | Some sourcefile \<Rightarrow>
             if sourcefile = [] then Inr (0, s, fs)
             else
               (case convertFile s w sourcefile of
                  Inl e \<Rightarrow> Inr (0, s, fs)
                | Inr None \<Rightarrow> Inr (0, s, fs)
                | Inr (Some filedata) \<Rightarrow>
                    (let playfile = fd_playfile filedata;
                         dest = mediapath s @ ''/'' @ playfile
                     in case copied w of
                          CopyFailed None \<Rightarrow> Inr (0, s, fs)
                        | CopyFailed (Some part) \<Rightarrow>
                            Inr (0, s, write_file dest \<lparr>mtime = copytime w, body = part\<rparr> fs)
                        | CopyDone \<Rightarrow>
                            (let fs1 = write_file dest
                                   \<lparr>mtime = copytime w,
                                    body = (case encoded w of Some bytes \<Rightarrow> bytes | None \<Rightarrow> [])\<rparr> fs;
                                 s1 = s\<lparr>filenumber := filenumber s + 1\<rparr>;
                                 playlistfile =
                                   mediapath s1 @ ''/playlist'' @ str_int (filenumber s1) @ ''.txt''
                             in if \<not> chain_opened w then Inr (0, s1, fs1)
                                else
                                  (let fs2 = write_file playlistfile
                                         \<lparr>mtime = copytime w,
                                          body = ffconcat playfile
                                            (''playlist'' @ str_int (filenumber s1 + 1) @ ''.txt'')\<rparr> fs1;
                                       s2 = addGas (fd_duration filedata) s1;
                                       processtook = processend w - processstart w
                                   in if processtook = 0 then Inr (0, s2, fs2)
                                      else Inr (1, tuneQuality (fd_duration filedata / processtook) s2,
                                                fs2)))))))"

section \<open>Eviction\<close>

text \<open>
  A method that changes files and may raise midway: \<open>Done x\<close> is a normal return,
  \<open>Raised e x\<close> an exception \<open>e\<close>, both with the files as they are at that moment.
\<close>

datatype 'a outcome = Done 'a | Raised error 'a

text \<open>The age pass of \<open>cleanCache\<close> (lines 522-529), over the sorted list of line 521.\<close>

fun age_pass :: "djstate \<Rightarrow> real \<Rightarrow> string list \<Rightarrow> dir \<Rightarrow> dir outcome" where
  "age_pass s timeago [] fs = Done fs"
| "age_pass s timeago (file # rest) fs =
     (case map_of fs (path_join (mediapath s) file) of
        None \<Rightarrow> Raised FileNotFoundError fs
      | Some st \<Rightarrow>
          if mtime st < timeago then
            (case digits_number file of
               Inl e \<Rightarrow> Raised e fs
             | Inr number \<Rightarrow>
                 (case os_remove (path_join (mediapath s) file) fs of
                    Inl e \<Rightarrow> Raised e fs
                  | Inr fs1 \<Rightarrow>
                      (case os_remove
                              (path_join (mediapath s) (''playlist'' @ str_nat number @ ''.txt'')) fs1 of
                         Inl e \<Rightarrow> Raised e fs1
                       | Inr fs2 \<Rightarrow> age_pass s timeago rest fs2)))
          else age_pass s timeago rest fs)"

text \<open>
  The usage pass (lines 534-549). \<open>du k\<close> is the answer \<open>(used, total)\<close> of the \<open>k\<close>-th call
  of \<open>shutil.disk_usage\<close>. The result carries \<open>False\<close> when the method returned at line 542,
  \<open>True\<close> when the loop ended and the method goes on to the sweep.
\<close>

fun usage_pass ::
  "djstate \<Rightarrow> (nat \<Rightarrow> nat \<times> nat) \<Rightarrow> nat \<Rightarrow> string list \<Rightarrow> dir \<Rightarrow> (bool \<times> dir) outcome" where
  "usage_pass s du k filelist fs =
     (if snd (du k) = 0 then Raised ZeroDivisionError (False, fs)
      else if real (fst (du k)) / real (snd (du k)) > 0.8 then
        (case filelist of
           [] \<Rightarrow> Done (False, fs)
         | item # rest \<Rightarrow>
             (case digits_number item of
                Inl e \<Rightarrow> Raised e (False, fs)
              | Inr number \<Rightarrow>
                  (case os_remove (path_join (mediapath s) item) fs of
                     Inl e \<Rightarrow> Raised e (False, fs)
                   | Inr fs1 \<Rightarrow>
                       (case os_remove
                               (path_join (mediapath s) (''playlist'' @ str_nat number @ ''.txt'')) fs1 of
                          Inl e \<Rightarrow> Raised e (False, fs1)
                        | Inr fs2 \<Rightarrow> usage_pass s du (Suc k) rest fs2))))
      else Done (True, fs))"

declare usage_pass.simps [simp del]

text \<open>
  The sweep of the working directory (lines 553-558). The working directory is a
  directory of its own, its entries named without a path; \<open>glob.glob('./*')\<close> lists those
  that do not begin with a dot, each as \<open>./name\<close>.
\<close>

definition path_name :: "string \<Rightarrow> string" where
  "path_name p = last (py_split p ''/'')"

definition cwd_glob :: "dir \<Rightarrow> string list" where
  "cwd_glob cwd = map (\<lambda>n. ''./'' @ n) (filter (\<lambda>n. n \<noteq> [] \<and> hd n \<noteq> CHR ''.'') (map fst cwd))"

fun sweep :: "string list \<Rightarrow> string list \<Rightarrow> dir \<Rightarrow> dir outcome" where
  "sweep mf [] cwd = Done cwd"
| "sweep mf (file # rest) cwd =
     (if path_name file \<notin> set mf then
        (case os_remove (drop 2 file) cwd of
           Inl e \<Rightarrow> Raised e cwd
         | Inr cwd1 \<Rightarrow> sweep mf rest cwd1)
      else sweep mf rest cwd)"

text \<open>
  \<open>cleanCache\<close> (lines 518-558). \<open>now\<close> is \<open>time.time()\<close> at line 519; the result is the
  file tree and the working directory.
\<close>

definition cleanCache ::
  "djstate \<Rightarrow> real \<Rightarrow> (nat \<Rightarrow> nat \<times> nat) \<Rightarrow> dir \<Rightarrow> dir \<Rightarrow> (dir \<times> dir) outcome" where
  "cleanCache s now du cwd fs =
     (case age_pass s (now - 5400) (natural_sort (glob (mediapath s) ''media'' ''.flv'' fs)) fs of
        Raised e fs1 \<Rightarrow> Raised e (fs1, cwd)
      | Done fs1 \<Rightarrow>
          (case usage_pass s du 0 (natural_sort (glob (mediapath s) ''media'' ''.flv'' fs1)) fs1 of
             Raised e (go, fs2) \<Rightarrow> Raised e (fs2, cwd)
           | Done (go, fs2) \<Rightarrow>
               if \<not> go then Done (fs2, cwd)
               else
                 (case sweep (manifest s) (cwd_glob cwd) cwd of
                    Raised e cwd1 \<Rightarrow> Raised e (fs2, cwd1)
                  | Done cwd1 \<Rightarrow> Done (fs2, cwd1))))"

section \<open>Entry playlist\<close>

text \<open>
  \<open>updateStartup\<close> (lines 497-516). \<open>now\<close> is the modification time a rewritten
  \<open>playlist0.txt\<close> gets; \<open>writable\<close> tells whether line 509 can open it. Line 503 is outside
  the \<open>try\<close>, so an empty list raises; everything raised inside the \<open>try\<close> is dropped.
\<close>

definition updateStartup :: "djstate \<Rightarrow> real \<Rightarrow> bool \<Rightarrow> dir \<Rightarrow> dir outcome" where
  "updateStartup s now writable fs =
     (case natural_sort (glob (mediapath s) ''playlist'' ''.txt'' fs) of
        [] \<Rightarrow> Raised IndexError fs
      | first # filelist \<Rightarrow>
          (case filelist of
             [] \<Rightarrow> Done fs
           | newfile # others \<Rightarrow>
               if writable
               then Done (write_file ''/media/playlist0.txt''
                      \<lparr>mtime = now, body = ffconcat ''startup.flv'' (last (py_split newfile ''/''))\<rparr> fs)
               else Done fs))"

section \<open>The production cycle\<close>

text \<open>
  \<open>updatePlaylist\<close> (lines 477-495). Each turn of the loop \<open>while not gotsong\<close> takes one
  answer of \<open>random.choice\<close>, given as a number that is reduced modulo the length of
  \<open>lines\<close>, and the world's answers for the call of \<open>processFile\<close> it may make. The list of
  these pairs is what the world supplies: when it is used up while \<open>gotsong\<close> is still 0
  the result is \<open>None\<close>, the loop is still running. Otherwise the result is the exception
  that left the loop, if any, the object, the file tree and the candidates handed to
  \<open>processFile\<close>, in order.
\<close>

fun select_song ::
  "djstate \<Rightarrow> dir \<Rightarrow> string \<Rightarrow> (nat \<times> world) list \<Rightarrow> string list \<Rightarrow>
     (error option \<times> djstate \<times> dir \<times> string list) option" where
  "select_song s fs inputlist [] processed = None"
| "select_song s fs inputlist ((pick, w) # later) processed =
     (let lines = py_split inputlist backslash_n;
          choice = lines ! (pick mod length lines);
          extension = py_lower (last (py_split choice ''.''))
      in if extension \<notin> set (extensions s) then select_song s fs inputlist later processed
         else
           (case processFile s fs w choice of
              Inl e \<Rightarrow> Some (Some e, s, fs, processed @ [choice])
            | Inr (status, s1, fs1) \<Rightarrow>
                if status = 0 then select_song s1 fs1 inputlist later (processed @ [choice])
                else Some (None, s1, fs1, processed @ [choice])))"

text \<open>The world's answers for lines 494 and 495.\<close>

record cleanup =
  clean_now :: real
  disk :: "nat \<Rightarrow> nat \<times> nat"
  workdir :: dir
  startup_now :: real
  entry_writable :: bool

record production =
  p_error :: "error option"
  p_state :: djstate
  p_root :: dir
  p_work :: dir
  p_processed :: "string list"

definition updatePlaylist ::
  "djstate \<Rightarrow> dir \<Rightarrow> string \<Rightarrow> (nat \<times> world) list \<Rightarrow> cleanup \<Rightarrow> production option" where
  "updatePlaylist s fs inputlist attempts c =
     (case select_song s fs inputlist attempts [] of
        None \<Rightarrow> None
      | Some (Some e, s1, fs1, processed) \<Rightarrow>
          Some \<lparr>p_error = Some e, p_state = s1, p_root = fs1, p_work = workdir c,
                p_processed = processed\<rparr>
      | Some (None, s1, fs1, processed) \<Rightarrow>
          (case cleanCache s1 (clean_now c) (disk c) (workdir c) fs1 of
             Raised e (fs2, cwd2) \<Rightarrow>
               Some \<lparr>p_error = Some e, p_state = s1, p_root = fs2, p_work = cwd2,
                     p_processed = processed\<rparr>
           | Done (fs2, cwd2) \<Rightarrow>
               (case updateStartup s1 (startup_now c) (entry_writable c) fs2 of
                  Raised e fs3 \<Rightarrow>
                    Some \<lparr>p_error = Some e, p_state = s1, p_root = fs3, p_work = cwd2,
                          p_processed = processed\<rparr>
                | Done fs3 \<Rightarrow>
                    Some \<lparr>p_error = None, p_state = s1, p_root = fs3, p_work = cwd2,
                          p_processed = processed\<rparr>)))"

section \<open>The main loop's body\<close>

text \<open>
  \<open>playlistCheck\<close> (lines 128-147). The world's answers: the body of the remote list
  (\<open>None\<close> when \<open>urlopen\<close> raises), the clock read by \<open>checkGas\<close>, and what a production
  cycle needs. \<open>md5\<close> is \<open>hashlib.md5(buf).hexdigest()\<close> and \<open>repr\<close> is \<open>str(buf)\<close>, both
  functions of the Python library; \<open>str_of_bytes\<close> above is the second.
\<close>

record poll =
  response :: "string option"
  clock :: real
  attempts :: "(nat \<times> world) list"
  after :: cleanup

datatype step =
    Fetch_failed error
  | Produce "production option"
  | Sleep real djstate

definition playlistCheck ::
  "(string \<Rightarrow> string) \<Rightarrow> (string \<Rightarrow> string) \<Rightarrow> djstate \<Rightarrow> dir \<Rightarrow> poll \<Rightarrow> step" where
  "playlistCheck md5 repr s fs p =
     (case response p of
        None \<Rightarrow> Fetch_failed URLError
      | Some buf \<Rightarrow>
          (let newhash = md5 buf
           in if newhash \<noteq> listhash s
              then Produce (updatePlaylist (s\<lparr>listhash := newhash\<rparr>) fs (repr buf) (attempts p) (after p))
              else
                (let (level, s1) = checkGas (clock p) s
                 in if level < gastanklimit s1
                    then Produce (updatePlaylist s1 fs (repr buf) (attempts p) (after p))
                    else Sleep (gastank s1 - gastanklimit s1) s1)))"

section \<open>The specification's quality controller\<close>

text \<open>
  The two controllers as the specification words them: the factor moves by one against the
  sign of \<open>ratio - target\<close> and is clamped to the interval from \<open>minQ\<close> to \<open>maxQ\<close>; the
  preset moves one step outside the dead-band of 0.5 around the target and stays within 0
  and 8.
\<close>

definition spec_quality_factor :: "real \<Rightarrow> real \<Rightarrow> int \<Rightarrow> int \<Rightarrow> int \<Rightarrow> int" where
  "spec_quality_factor ratio target factor minQ maxQ =
     (let f = (if ratio < target then factor + 1 else if ratio > target then factor - 1 else factor)
      in if f < minQ then minQ else if maxQ < f then maxQ else f)"

definition spec_preset :: "real \<Rightarrow> real \<Rightarrow> int \<Rightarrow> int" where
  "spec_preset ratio target p =
     (if ratio < target - 0.5 \<and> p > 0 then p - 1
      else if ratio > target + 0.5 \<and> p < 8 then p + 1
      else p)"

text \<open>The bounds of the quality state, with the constants of \<open>__init__\<close>.\<close>

definition quality_inv :: "djstate \<Rightarrow> bool" where
  "quality_inv s \<longleftrightarrow>
     mincrf s = 17 \<and> maxcrf s = 28 \<and> 17 \<le> crf s \<and> crf s \<le> 28 \<and> 0 \<le> preset s \<and> preset s \<le> 8"

section \<open>A sample run\<close>

text \<open>
  A controller as \<open>main.py\<close> configures it (allow-list cut down to \<open>mp3\<close>), after \<open>initRun\<close>,
  and a world in which a three-minute song is fetched and encoded in one minute.
\<close>

definition example_state :: djstate where
  "example_state = initRun 0 0 (init [''mp3''] ''/media'' 3600 2 [''font.ttf'', ''djmarinara.py''])"

definition example_world :: world where
  "example_world =
     \<lparr> processstart = 0, processend = 60, acquired = Some ''a.mp3'',
       ffprobe = Some \<lparr> pf_filename = Some ''a.mp3'', pf_title = Some ''A'', pf_artist = None,
                        pf_comment = None, pf_duration = Some 180 \<rparr>,
       trueduration = Some 180, encoded = Some ''video'', copied = CopyDone,
       chain_opened = True, copytime = 60 \<rparr>"

section \<open>Rejections and failures\<close>

text \<open>
  The rejections of a candidate before the copy into the media directory, in terms of the
  world's answers: the probe has no title or no duration, the probed duration exceeds half
  the gas tank limit, or the encoded video has size zero.
\<close>

definition rejected :: "djstate \<Rightarrow> world \<Rightarrow> bool" where
  "rejected s w \<longleftrightarrow>
     (case ffprobe w of
        None \<Rightarrow> False
      | Some filejson \<Rightarrow>
          pf_title filejson = None \<or> pf_duration filejson = None \<or>
          (case pf_duration filejson of None \<Rightarrow> False | Some d \<Rightarrow> d > gastanklimit s / 2)) \<or>
     encoded w = Some []"

text \<open>The sample world with a copy that fails after writing two bytes.\<close>

definition failing_copy_world :: world where
  "failing_copy_world = example_world\<lparr>copied := CopyFailed (Some ''vi'')\<rparr>"

text \<open>
  The candidate list of the specification's example: the bytes of the remote list as
  \<open>playlistCheck\<close> reads them (line 131), one candidate on a line, and the text
  \<open>str(buf)\<close> that \<open>updatePlaylist\<close> receives for them (lines 140 and 143). That text begins
  with \<open>b'\<close> and ends with \<open>'\<close>, and has a backslash and \<open>n\<close> where the bytes have a line
  feed.
\<close>

definition example_body :: string where
  "example_body = ''http://x/a.mp3'' @ [CHR 0x0A] @ ''http://x/b.exe''"

definition example_list :: string where
  "example_list = str_of_bytes example_body"

text \<open>A remote list in which the two candidates are neither the first nor the last line.\<close>

definition longer_body :: string where
  "longer_body =
     ''http://x/first.mp3'' @ [CHR 0x0A] @ ''http://x/a.mp3'' @ [CHR 0x0A] @
     ''http://x/b.exe'' @ [CHR 0x0A] @ ''http://x/last.mp3''"

definition longer_list :: string where
  "longer_list = str_of_bytes longer_body"

text \<open>
  The sample world with a clock that reads the same at lines 207 and 261: \<open>time.time()\<close> is
  the wall clock, which may be set back while the song is fetched and encoded.
\<close>

definition stalled_world :: world where
  "stalled_world = example_world\<lparr>processend := 0\<rparr>"

text \<open>
  The sample world with a probe that reports no title, and the world's answers for one
  iteration of the main loop.
\<close>

definition untitled_world :: world where
  "untitled_world =
     example_world\<lparr>ffprobe := Some \<lparr> pf_filename = Some ''a.mp3'', pf_title = None,
       pf_artist = None, pf_comment = None, pf_duration = Some 180 \<rparr>\<rparr>"

definition example_cleanup :: cleanup where
  "example_cleanup =
     \<lparr> clean_now = 100, disk = (\<lambda>k. (50, 100)), workdir = [], startup_now = 100,
       entry_writable = True \<rparr>"

definition example_poll :: poll where
  "example_poll =
     \<lparr> response = Some example_body, clock = 10, attempts = [], after = example_cleanup \<rparr>"

section \<open>Segments and chain files of the specification\<close>

text \<open>
  The names of the specification's data model: segment \<open>n\<close> is the video \<open>media<n>.flv\<close>
  of the media directory and its chain file is \<open>playlist<n>.txt\<close>; \<open>removeSegment\<close>
  deletes both.
\<close>

definition segment_path :: "string \<Rightarrow> nat \<Rightarrow> string" where
  "segment_path d n = d @ ''/media'' @ str_nat n @ ''.flv''"

definition chain_path :: "string \<Rightarrow> nat \<Rightarrow> string" where
  "chain_path d n = d @ ''/playlist'' @ str_nat n @ ''.txt''"

definition remove_segment :: "string \<Rightarrow> nat \<Rightarrow> dir \<Rightarrow> dir" where
  "remove_segment d n fs = AList.delete (chain_path d n) (AList.delete (segment_path d n) fs)"

text \<open>
  The usage pass as the specification words it: while the used fraction exceeds 80%, remove
  the oldest remaining segment and read the usage again; stop when it is at or below the
  threshold or when no segment remains. The list holds the segment numbers, oldest first.
\<close>

definition over_threshold :: "nat \<times> nat \<Rightarrow> bool" where
  "over_threshold u \<longleftrightarrow> real (fst u) / real (snd u) > 0.8"

fun spec_usage_pass :: "string \<Rightarrow> (nat \<Rightarrow> nat \<times> nat) \<Rightarrow> nat \<Rightarrow> nat list \<Rightarrow> dir \<Rightarrow> dir" where
  "spec_usage_pass d du k [] fs = fs"
| "spec_usage_pass d du k (n # ns) fs =
     (if over_threshold (du k) then spec_usage_pass d du (Suc k) ns (remove_segment d n fs) else fs)"

text \<open>
  A string without a digit, and a media path the code can work with: absolute (so that
  \<open>os.path.join\<close> leaves the paths of \<open>glob\<close> alone), not ending in a slash, and without a
  digit (lines 527 and 545 read the segment number off the digits of the whole path). The
  path \<open>/media\<close> of \<open>main.py\<close> is one.
\<close>

definition no_digit :: "string \<Rightarrow> bool" where
  "no_digit a \<longleftrightarrow> list_all (\<lambda>c. \<not> isdigit c) a"

definition usable_mediapath :: "string \<Rightarrow> bool" where
  "usable_mediapath d \<longleftrightarrow> prefix ''/'' d \<and> \<not> suffix ''/'' d \<and> no_digit d"

text \<open>
  A media directory with the bootstrap files and the segments 10, 2 and 1, listed in that
  order, and a disk that is 85% full at the first reading and 80% full afterwards.
\<close>

definition example_tree :: dir where
  "example_tree =
     [(''/media/playlist0.txt'', \<lparr>mtime = 0, body = ffconcat ''startup.flv'' ''playlist1.txt''\<rparr>),
      (''/media/startup.flv'', \<lparr>mtime = 0, body = ''intro''\<rparr>),
      (''/media/media10.flv'', \<lparr>mtime = 9000, body = ''ten''\<rparr>),
      (''/media/playlist10.txt'', \<lparr>mtime = 9000, body = ffconcat ''media10.flv'' ''playlist11.txt''\<rparr>),
      (''/media/media2.flv'', \<lparr>mtime = 1000, body = ''two''\<rparr>),
      (''/media/playlist2.txt'', \<lparr>mtime = 1000, body = ffconcat ''media2.flv'' ''playlist3.txt''\<rparr>),
      (''/media/media1.flv'', \<lparr>mtime = 500, body = ''one''\<rparr>),
      (''/media/playlist1.txt'', \<lparr>mtime = 500, body = ffconcat ''media1.flv'' ''playlist2.txt''\<rparr>)]"

definition example_usage :: "nat \<Rightarrow> nat \<times> nat" where
  "example_usage k = (if k = 0 then (85, 100) else (80, 100))"

text \<open>A media directory holding only the bootstrap chain file and the startup asset.\<close>

definition bootstrap_tree :: dir where
  "bootstrap_tree =
     [(''/media/playlist0.txt'', \<lparr>mtime = 0, body = ffconcat ''startup.flv'' ''playlist1.txt''\<rparr>),
      (''/media/startup.flv'', \<lparr>mtime = 0, body = ''intro''\<rparr>)]"

text \<open>What an outcome leaves behind, whether the method returned or raised.\<close>

fun state_after :: "'a outcome \<Rightarrow> 'a" where
  "state_after (Done x) = x"
| "state_after (Raised e x) = x"

text \<open>
  A media directory with one aged segment, a manifest that lists the name of that segment,
  and a working directory holding the two long-lived assets and a stray download.
\<close>

definition listed_tree :: dir where
  "listed_tree =
     [(''/media/playlist0.txt'', \<lparr>mtime = 0, body = ffconcat ''startup.flv'' ''playlist1.txt''\<rparr>),
      (''/media/startup.flv'', \<lparr>mtime = 0, body = ''intro''\<rparr>),
      (''/media/media1.flv'', \<lparr>mtime = 500, body = ''one''\<rparr>),
      (''/media/playlist1.txt'', \<lparr>mtime = 500, body = ffconcat ''media1.flv'' ''playlist2.txt''\<rparr>)]"

definition listed_state :: djstate where
  "listed_state = example_state\<lparr>manifest := [''font.ttf'', ''djmarinara.py'', ''media1.flv'']\<rparr>"

definition example_workdir :: dir where
  "example_workdir =
     [(''font.ttf'', \<lparr>mtime = 0, body = ''glyphs''\<rparr>),
      (''djmarinara.py'', \<lparr>mtime = 0, body = ''code''\<rparr>),
      (''a.mp3'', \<lparr>mtime = 9000, body = ''download''\<rparr>)]"

section \<open>Quality controller: bounds\<close>

lemma clamp_bounds: "minn \<le> maxn \<Longrightarrow> minn \<le> clamp n minn maxn \<and> clamp n minn maxn \<le> maxn"
  by (simp add: clamp_def)

lemma quality_inv_init: "quality_inv (init exts mpath limit target mf)"
  by (simp add: quality_inv_def init_def)

lemma quality_inv_tuneQuality: "quality_inv s \<Longrightarrow> quality_inv (tuneQuality ratio s)"
  by (simp add: quality_inv_def tuneQuality_def clamp_def Let_def)

lemma quality_inv_foldl:
  "quality_inv s \<Longrightarrow> quality_inv (foldl (\<lambda>st r. tuneQuality r st) s ratios)"
  by (induction ratios arbitrary: s) (simp_all add: quality_inv_tuneQuality)

text \<open>
  Claim C1. Starting from the object \<open>__init__\<close> builds (preset 0, crf 17 with bounds 17
  and 28), after the quality controller has been fed any sequence of throughput ratios the
  quality factor lies in [17, 28] and the preset index in [0, 8].
\<close>

theorem C1_quality_bounds:
  "mincrf (foldl (\<lambda>st r. tuneQuality r st) (init exts mpath limit target mf) ratios) = 17 \<and>
   maxcrf (foldl (\<lambda>st r. tuneQuality r st) (init exts mpath limit target mf) ratios) = 28 \<and>
   17 \<le> crf (foldl (\<lambda>st r. tuneQuality r st) (init exts mpath limit target mf) ratios) \<and>
   crf (foldl (\<lambda>st r. tuneQuality r st) (init exts mpath limit target mf) ratios) \<le> 28 \<and>
   0 \<le> preset (foldl (\<lambda>st r. tuneQuality r st) (init exts mpath limit target mf) ratios) \<and>
   preset (foldl (\<lambda>st r. tuneQuality r st) (init exts mpath limit target mf) ratios) \<le> 8"
  using quality_inv_foldl [OF quality_inv_init, of exts mpath limit target mf ratios]
  by (simp add: quality_inv_def)

section \<open>Gas tank: linear decay\<close>

text \<open>
  Claim C2. Of two consecutive calls of \<open>checkGas\<close>, at times \<open>t1\<close> and \<open>t2\<close> with nothing
  added in between, the second returns the level the first returned minus \<open>t2 - t1\<close>, and
  that is the level stored. The level is not clamped: after a call at \<open>t1\<close>, a segment of 120
  seconds added and 4000 seconds gone the call returns the earlier level plus 120 minus 4000;
  with the limit 3600 and an earlier level of at most the limit that is at most -280, and
  from the start of the run (level 0) it is -3880.
\<close>

theorem C2_gas_decay:
  "fst (checkGas t2 (snd (checkGas t1 s))) = fst (checkGas t1 s) - (t2 - t1) \<and>
   gastank (snd (checkGas t2 (snd (checkGas t1 s)))) = fst (checkGas t1 s) - (t2 - t1) \<and>
   fst (checkGas (t1 + 4000) (addGas 120 (snd (checkGas t1 s)))) = fst (checkGas t1 s) + 120 - 4000 \<and>
   (gastanklimit s = 3600 \<and> fst (checkGas t1 s) \<le> gastanklimit s \<longrightarrow>
      fst (checkGas (t1 + 4000) (addGas 120 (snd (checkGas t1 s)))) \<le> - 280) \<and>
   fst (checkGas (t0 + 4000) (addGas 120 (initRun t0 n s))) = - 3880"
  by (simp add: checkGas_def addGas_def initRun_def Let_def)

theorem C2_gas_decay_witness:
  "gastanklimit example_state = 3600 \<and>
   fst (checkGas 100 example_state) \<le> gastanklimit example_state \<and>
   fst (checkGas (100 + 4000) (addGas 120 (snd (checkGas 100 example_state)))) \<le> - 280"
  using C2_gas_decay [of 100 100 example_state 0 0]
  by (simp add: example_state_def initRun_def init_def checkGas_def Let_def)

section \<open>Quality controller: the update\<close>

lemma tuneQuality_spec:
  "mincrf s \<le> maxcrf s \<Longrightarrow>
   crf (tuneQuality r s) = spec_quality_factor r (targetspeed s) (crf s) (mincrf s) (maxcrf s) \<and>
   preset (tuneQuality r s) = spec_preset r (targetspeed s) (preset s)"
  by (auto simp: tuneQuality_def spec_quality_factor_def spec_preset_def clamp_def Let_def)

lemma tuneQuality_frame:
  "gastank (tuneQuality r s) = gastank s \<and> filenumber (tuneQuality r s) = filenumber s \<and>
   extensions (tuneQuality r s) = extensions s \<and> mediapath (tuneQuality r s) = mediapath s \<and>
   targetspeed (tuneQuality r s) = targetspeed s \<and> mincrf (tuneQuality r s) = mincrf s \<and>
   maxcrf (tuneQuality r s) = maxcrf s"
  by (simp add: tuneQuality_def Let_def)

lemma convertFile_Some:
  "convertFile s w f = Inr (Some fd) \<Longrightarrow>
   trueduration w = Some (fd_duration fd) \<and>
   fd_playfile fd = ''media'' @ str_int (filenumber s + 1) @ ''.flv'' \<and>
   (\<exists>bytes. encoded w = Some bytes \<and> bytes \<noteq> [])"
  by (auto simp: convertFile_def split: option.splits if_splits)

lemma processFile_success:
  assumes "processFile s fs w file = Inr (1, s', fs')"
  shows "\<exists>src fd. acquired w = Some src \<and> convertFile s w src = Inr (Some fd) \<and>
     copied w = CopyDone \<and> chain_opened w \<and> processend w - processstart w \<noteq> 0 \<and>
     s' = tuneQuality (fd_duration fd / (processend w - processstart w))
            (addGas (fd_duration fd) (s\<lparr>filenumber := filenumber s + 1\<rparr>))"
  using assms
  by (auto simp: processFile_def Let_def split: if_splits option.splits sum.splits copy_result.splits)

lemma str_nat_small: "n < 10 \<Longrightarrow> str_nat n = [digit_chr n]"
  by (simp add: str_nat.simps)

lemma split_url: "py_split ''http://x/a.mp3'' ''://'' = [''http'', ''x/a.mp3'']"
  by (simp add: py_split_def)

lemma example_quoted_url: "quoted_url ''http://x/a.mp3'' = ''http://x/a.mp3''"
  by (simp add: quoted_url_def split_url quote_def url_safe_def)

lemma example_url: "\<not> no_handler (quoted_url ''http://x/a.mp3'')"
  unfolding example_quoted_url
  by (simp add: no_handler_def unwrap_def py_strip_def isspace_def splittag_def splittype_def
      url_handlers_def py_lower_def lower_char_def)

lemma example_convert:
  "convertFile example_state example_world ''a.mp3'' =
     Inr (Some \<lparr> fd_filename = ''a.mp3'', fd_title = ''A'', fd_artist = None, fd_comments = None,
                 fd_duration = 180, fd_playfile = ''media1.flv'' \<rparr>)"
  by (simp add: convertFile_def example_state_def example_world_def initRun_def init_def
      str_int_def str_nat_small digit_chr_def)

lemma example_production:
  "processFile example_state [] example_world ''http://x/a.mp3'' =
     Inr (1, tuneQuality 3 (addGas 180 (example_state\<lparr>filenumber := 1\<rparr>)),
          [(''/media/media1.flv'', \<lparr>mtime = 60, body = ''video''\<rparr>),
           (''/media/playlist1.txt'', \<lparr>mtime = 60, body = ffconcat ''media1.flv'' ''playlist2.txt''\<rparr>)])"
proof -
  have w: "acquired example_world = Some ''a.mp3''" "copied example_world = CopyDone"
    "chain_opened example_world" "encoded example_world = Some ''video''"
    "copytime example_world = 60" "processend example_world = 60"
    "processstart example_world = 0"
    by (simp_all add: example_world_def)
  have s: "mediapath example_state = ''/media''" "filenumber example_state = 0"
    by (simp_all add: example_state_def initRun_def init_def)
  show ?thesis
    by (simp add: processFile_def split_url example_url example_convert w s Let_def
        str_int_def str_nat_small digit_chr_def write_file_def)
qed

text \<open>
  Claim C6. When \<open>processFile\<close> returns 1, with \<open>ratio\<close> the duration of the segment divided
  by the wall-clock time the call took, the new quality factor is the old one plus 1 if
  \<open>ratio < targetspeed\<close>, minus 1 if \<open>ratio > targetspeed\<close>, clamped to \<open>mincrf\<close> and \<open>maxcrf\<close>;
  the new preset is the old one minus 1 if \<open>ratio < targetspeed - 0.5\<close> and it is above 0,
  plus 1 if \<open>ratio > targetspeed + 0.5\<close> and it is below 8, and the old one otherwise.
\<close>

theorem C6_tuning:
  assumes "processFile s fs w file = Inr (1, s', fs')"
    and "trueduration w = Some duration"
    and "mincrf s \<le> maxcrf s"
  shows "crf s' = spec_quality_factor (duration / (processend w - processstart w))
                    (targetspeed s) (crf s) (mincrf s) (maxcrf s) \<and>
         preset s' = spec_preset (duration / (processend w - processstart w))
                    (targetspeed s) (preset s)"
proof -
  from processFile_success [OF assms(1)] obtain src fd where
    c: "convertFile s w src = Inr (Some fd)" and
    s': "s' = tuneQuality (fd_duration fd / (processend w - processstart w))
            (addGas (fd_duration fd) (s\<lparr>filenumber := filenumber s + 1\<rparr>))"
    by blast
  from convertFile_Some [OF c] assms(2) have d: "fd_duration fd = duration" by simp
  let ?s2 = "addGas duration (s\<lparr>filenumber := filenumber s + 1\<rparr>)"
  have "mincrf ?s2 \<le> maxcrf ?s2" using assms(3) by (simp add: addGas_def)
  from tuneQuality_spec [OF this] show ?thesis
    by (simp add: s' d addGas_def)
qed

theorem C6_tuning_witness:
  "crf (tuneQuality 3 (addGas 180 (example_state\<lparr>filenumber := 1\<rparr>))) = 17 \<and>
   preset (tuneQuality 3 (addGas 180 (example_state\<lparr>filenumber := 1\<rparr>))) = 1"
  using C6_tuning [OF example_production, of 180]
  by (simp add: example_world_def example_state_def initRun_def init_def
      spec_quality_factor_def spec_preset_def)

section \<open>A failed copy\<close>

lemma glob_write_other:
  assumes "\<not> (in_dir d p \<and> glob_match pre suf (drop (length d + 1) p))"
  shows "glob d pre suf (write_file p f fs) = glob d pre suf fs"
  using assms by (simp add: glob_def write_file_def update_keys)

lemma media_not_playlist:
  "\<not> glob_match ''playlist'' suf (drop (length d + 1) (d @ ''/'' @ ''media'' @ x))"
  by (simp add: glob_match_def)

lemma map_of_write_file:
  "map_of (write_file p f fs) q = (if q = p then Some f else map_of fs q)"
  by (simp add: write_file_def update_conv')

lemma convertFile_rejected:
  "rejected s w \<Longrightarrow> maxlength s = gastanklimit s / 2 \<Longrightarrow> convertFile s w src \<noteq> Inr (Some fd)"
  by (auto simp: rejected_def convertFile_def split: option.splits if_splits)

lemma processFile_no_convert:
  assumes "2 \<le> length (py_split file ''://'')"
    and "\<And>src fd. convertFile s w src \<noteq> Inr (Some fd)"
  shows "processFile s fs w file = Inr (0, s, fs)"
  using assms
  by (auto simp: processFile_def split: option.splits sum.splits)

lemma processFile_copy_failed:
  assumes "copied w = CopyFailed part" and "2 \<le> length (py_split file ''://'')"
  shows "processFile s fs w file = Inr (0, s, fs) \<or>
     (\<exists>b. part = Some b \<and>
        processFile s fs w file =
          Inr (0, s, write_file (mediapath s @ ''/'' @ ''media'' @ str_int (filenumber s + 1) @ ''.flv'')
                       \<lparr>mtime = copytime w, body = b\<rparr> fs))"
  using assms
  by (auto simp: processFile_def Let_def dest!: convertFile_Some
      split: option.splits sum.splits)

text \<open>
  Claim C9. When \<open>shutil.copy\<close> does not complete, \<open>processFile\<close> (given a candidate with
  a scheme, so that line 212 passes) returns 0 with the object unchanged, so the file
  number, the gas tank, the quality factor and the preset keep their values, and the media
  directory has the playlist files it had, with the contents they had.
\<close>

theorem C9_copy_failure:
  assumes "copied w = CopyFailed part" and "2 \<le> length (py_split file ''://'')"
  shows "\<exists>fs'. processFile s fs w file = Inr (0, s, fs') \<and>
     glob (mediapath s) ''playlist'' ''.txt'' fs' = glob (mediapath s) ''playlist'' ''.txt'' fs \<and>
     (\<forall>name. map_of fs' (mediapath s @ ''/playlist'' @ name) =
             map_of fs (mediapath s @ ''/playlist'' @ name))"
proof -
  let ?dest = "mediapath s @ ''/'' @ ''media'' @ str_int (filenumber s + 1) @ ''.flv''"
  have g: "glob (mediapath s) ''playlist'' ''.txt'' (write_file ?dest f fs) =
           glob (mediapath s) ''playlist'' ''.txt'' fs" for f
    by (rule glob_write_other) (simp add: glob_match_def)
  have m: "map_of (write_file ?dest f fs) (mediapath s @ ''/playlist'' @ name) =
           map_of fs (mediapath s @ ''/playlist'' @ name)" for f name
    by (simp add: map_of_write_file)
  from processFile_copy_failed [OF assms, of s fs] show ?thesis
  proof
    assume "processFile s fs w file = Inr (0, s, fs)"
    then show ?thesis by simp
  next
    assume "\<exists>b. part = Some b \<and>
        processFile s fs w file =
          Inr (0, s, write_file ?dest \<lparr>mtime = copytime w, body = b\<rparr> fs)"
    then obtain b where
      "processFile s fs w file = Inr (0, s, write_file ?dest \<lparr>mtime = copytime w, body = b\<rparr> fs)"
      by blast
    with g m show ?thesis by simp
  qed
qed

lemma example_copy_failure:
  "processFile example_state [] failing_copy_world ''http://x/a.mp3'' =
     Inr (0, example_state, [(''/media/media1.flv'', \<lparr>mtime = 60, body = ''vi''\<rparr>)])"
proof -
  have c: "convertFile example_state failing_copy_world ''a.mp3'' =
     convertFile example_state example_world ''a.mp3''"
    by (simp add: convertFile_def failing_copy_world_def split: option.splits)
  have w: "acquired failing_copy_world = Some ''a.mp3''"
    "copied failing_copy_world = CopyFailed (Some ''vi'')" "copytime failing_copy_world = 60"
    by (simp_all add: failing_copy_world_def example_world_def)
  have s: "mediapath example_state = ''/media''"
    by (simp add: example_state_def initRun_def init_def)
  show ?thesis
    by (simp add: processFile_def split_url example_url c example_convert w s Let_def
        write_file_def)
qed

theorem C9_copy_failure_witness:
  "processFile example_state [] failing_copy_world ''http://x/a.mp3'' =
     Inr (0, example_state, [(''/media/media1.flv'', \<lparr>mtime = 60, body = ''vi''\<rparr>)]) \<and>
   glob (mediapath example_state) ''playlist'' ''.txt''
     [(''/media/media1.flv'', \<lparr>mtime = 60, body = ''vi''\<rparr>)] = []"
proof -
  have "copied failing_copy_world = CopyFailed (Some ''vi'')"
    by (simp add: failing_copy_world_def)
  moreover have "2 \<le> length (py_split ''http://x/a.mp3'' ''://'')"
    by (simp add: split_url)
  ultimately show ?thesis
    using C9_copy_failure [of failing_copy_world "Some ''vi''" "''http://x/a.mp3''" example_state "[]"]
    by (simp add: example_copy_failure glob_def)
qed

section \<open>Rejected candidates change nothing\<close>

lemma processFile_changes:
  assumes "processFile s fs w file = Inr (status, s', fs')"
  shows "(filenumber s' \<noteq> filenumber s \<longrightarrow> copied w = CopyDone) \<and>
         (gastank s' \<noteq> gastank s \<longrightarrow> copied w = CopyDone \<and> chain_opened w) \<and>
         (crf s' \<noteq> crf s \<or> preset s' \<noteq> preset s \<longrightarrow> status = 1)"
  using assms
  by (auto simp: processFile_def Let_def addGas_def tuneQuality_frame
      split: if_splits option.splits sum.splits copy_result.splits)

lemma select_song_choice:
  assumes "py_split inputlist backslash_n ! (pick mod length (py_split inputlist backslash_n)) =
           choice"
  shows "select_song s fs inputlist ((pick, w) # later) processed =
     (if py_lower (last (py_split choice ''.'')) \<notin> set (extensions s)
      then select_song s fs inputlist later processed
      else
        (case processFile s fs w choice of
           Inl e \<Rightarrow> Some (Some e, s, fs, processed @ [choice])
         | Inr (status, s1, fs1) \<Rightarrow>
             if status = 0 then select_song s1 fs1 inputlist later (processed @ [choice])
             else Some (None, s1, fs1, processed @ [choice])))"
  unfolding select_song.simps Let_def assms by (rule refl)

lemma example_lines:
  "py_split example_list backslash_n =
     [''b'' @ [CHR 0x27] @ ''http://x/a.mp3'', ''http://x/b.exe'' @ [CHR 0x27]]"
  by (simp add: example_list_def example_body_def str_of_bytes_def bytes_escape_def
      backslash_n_def py_split_def Let_def)

lemma longer_lines:
  "py_split longer_list backslash_n =
     [''b'' @ [CHR 0x27] @ ''http://x/first.mp3'', ''http://x/a.mp3'', ''http://x/b.exe'',
      ''http://x/last.mp3'' @ [CHR 0x27]]"
  by (simp add: longer_list_def longer_body_def str_of_bytes_def bytes_escape_def backslash_n_def
      py_split_def Let_def)

lemma longer_picks:
  "py_split longer_list backslash_n ! (Suc 0 mod length (py_split longer_list backslash_n)) =
     ''http://x/a.mp3''"
  "py_split longer_list backslash_n ! (2 mod length (py_split longer_list backslash_n)) =
     ''http://x/b.exe''"
  unfolding longer_lines by simp_all

lemma example_extensions:
  "py_lower (last (py_split ''http://x/a.mp3'' ''.'')) = ''mp3''"
  "py_lower (last (py_split ''http://x/b.exe'' ''.'')) = ''exe''"
  "py_lower (last (py_split (''b'' @ [CHR 0x27] @ ''http://x/a.mp3'') ''.'')) = ''mp3''"
  "py_lower (last (py_split (''http://x/b.exe'' @ [CHR 0x27]) ''.'')) = ''exe'' @ [CHR 0x27]"
  by (simp_all add: py_split_def py_lower_def lower_char_def)

text \<open>
  What holds of the rejections. A candidate whose extension is not in the allow-list is
  skipped by the loop of \<open>updatePlaylist\<close> without a call of \<open>processFile\<close>, the object, the
  files and the list of processed candidates staying as they are. A candidate (with a
  scheme) whose probe has no title or no duration, whose probed duration exceeds half the
  gas tank limit, or whose encoded video has size zero makes \<open>processFile\<close> return 0 with
  the object and the files unchanged. The quality factor and the preset change only in a
  call that returns 1; the gas tank changes only in a call that copied the video and
  opened the playlist file.
\<close>

lemma rejection_frame:
  "(py_lower (last (py_split (py_split inputlist backslash_n !
        (pick mod length (py_split inputlist backslash_n))) ''.'')) \<notin> set (extensions s) \<longrightarrow>
      select_song s fs inputlist ((pick, w) # later) processed =
      select_song s fs inputlist later processed) \<and>
   (2 \<le> length (py_split file ''://'') \<and> maxlength s = gastanklimit s / 2 \<and> rejected s w \<longrightarrow>
      processFile s fs w file = Inr (0, s, fs)) \<and>
   (processFile s fs w file = Inr (status, s', fs') \<and> gastank s' \<noteq> gastank s \<longrightarrow>
      copied w = CopyDone \<and> chain_opened w) \<and>
   (processFile s fs w file = Inr (status, s', fs') \<and> (crf s' \<noteq> crf s \<or> preset s' \<noteq> preset s) \<longrightarrow>
      status = 1)"
proof (intro conjI impI)
  assume "py_lower (last (py_split (py_split inputlist backslash_n !
        (pick mod length (py_split inputlist backslash_n))) ''.'')) \<notin> set (extensions s)"
  then show "select_song s fs inputlist ((pick, w) # later) processed =
      select_song s fs inputlist later processed"
    by (simp add: Let_def)
next
  assume a: "2 \<le> length (py_split file ''://'') \<and> maxlength s = gastanklimit s / 2 \<and> rejected s w"
  then have "convertFile s w src \<noteq> Inr (Some fd)" for src fd
    using convertFile_rejected by blast
  with a show "processFile s fs w file = Inr (0, s, fs)"
    by (intro processFile_no_convert) simp_all
next
  assume "processFile s fs w file = Inr (status, s', fs') \<and> gastank s' \<noteq> gastank s"
  then show "copied w = CopyDone" "chain_opened w"
    using processFile_changes by blast+
next
  assume "processFile s fs w file = Inr (status, s', fs') \<and> (crf s' \<noteq> crf s \<or> preset s' \<noteq> preset s)"
  then show "status = 1"
    using processFile_changes by blast
qed

lemma example_rejection:
  "processFile example_state [] untitled_world ''http://x/a.mp3'' = Inr (0, example_state, [])"
proof -
  have "maxlength example_state = gastanklimit example_state / 2"
    by (simp add: example_state_def initRun_def init_def)
  moreover have "rejected example_state untitled_world"
    by (simp add: rejected_def untitled_world_def)
  ultimately show ?thesis
    using rejection_frame [of _ _ example_state "[]" untitled_world _ _ "''http://x/a.mp3''"]
    by (simp add: split_url)
qed

lemma stalled_production:
  "processFile example_state [] stalled_world ''http://x/a.mp3'' =
     Inr (0, example_state\<lparr>filenumber := 1, gastank := 180\<rparr>,
          [(''/media/media1.flv'', \<lparr>mtime = 60, body = ''video''\<rparr>),
           (''/media/playlist1.txt'', \<lparr>mtime = 60, body = ffconcat ''media1.flv'' ''playlist2.txt''\<rparr>)])"
proof -
  have c: "convertFile example_state stalled_world ''a.mp3'' =
     convertFile example_state example_world ''a.mp3''"
    by (simp add: convertFile_def stalled_world_def split: option.splits)
  have w: "acquired stalled_world = Some ''a.mp3''" "copied stalled_world = CopyDone"
    "chain_opened stalled_world" "encoded stalled_world = Some ''video''"
    "copytime stalled_world = 60" "processend stalled_world = 0"
    "processstart stalled_world = 0"
    by (simp_all add: stalled_world_def example_world_def)
  have s: "mediapath example_state = ''/media''" "filenumber example_state = 0"
    "gastank example_state = 0"
    by (simp_all add: example_state_def initRun_def init_def)
  show ?thesis
    by (simp add: processFile_def split_url example_url c example_convert w s Let_def
        str_int_def str_nat_small digit_chr_def write_file_def addGas_def)
qed

text \<open>
  Claim C10 asks that gas updates occur only after a fully successful production. That
  fails when the clock reads the same at the start and at the end of \<open>processFile\<close>. For a
  candidate that is fetched, probed, encoded and copied, none of the claim's rejections,
  the method writes the chain file, increments the file number and adds the duration to
  the gas tank (lines 248-260); the division of line 263 then raises, and the \<open>except\<close>
  clause of line 283 returns 0. The file number is 1 and the gas tank 180 where they were
  0, quality factor and preset are untouched, and the loop of \<open>updatePlaylist\<close>, told that
  the candidate failed, goes on to pick another.
\<close>

theorem C10_gas_added_on_failure:
  "processFile example_state [] stalled_world ''http://x/a.mp3'' =
     Inr (0, example_state\<lparr>filenumber := 1, gastank := 180\<rparr>,
          [(''/media/media1.flv'', \<lparr>mtime = 60, body = ''video''\<rparr>),
           (''/media/playlist1.txt'', \<lparr>mtime = 60, body = ffconcat ''media1.flv'' ''playlist2.txt''\<rparr>)]) \<and>
   filenumber example_state = 0 \<and> gastank example_state = 0 \<and>
   \<not> rejected example_state stalled_world \<and>
   py_lower (last (py_split ''http://x/a.mp3'' ''.'')) \<in> set (extensions example_state) \<and>
   select_song example_state [] longer_list [(1, stalled_world)] [] = None"
proof -
  have s: "filenumber example_state = 0" "gastank example_state = 0"
    "extensions example_state = [''mp3'']"
    by (simp_all add: example_state_def initRun_def init_def)
  have r: "\<not> rejected example_state stalled_world"
    by (simp add: rejected_def stalled_world_def example_world_def example_state_def
        initRun_def init_def)
  have l: "select_song example_state [] longer_list [(Suc 0, stalled_world)] [] = None"
    unfolding select_song_choice [OF longer_picks(1)]
    by (simp add: example_extensions s stalled_production)
  from stalled_production s r l show ?thesis
    by (simp add: example_extensions)
qed

section \<open>The main loop's decision\<close>

text \<open>
  Claim C3. Once \<open>playlistCheck\<close> has fetched the list: if its hash differs from the stored
  one, the hash is stored and one production cycle runs on the object as it is, the gas
  tank not read; if the hash is the same and \<open>checkGas\<close> returns less than the limit, one
  production cycle runs on the object \<open>checkGas\<close> left; otherwise nothing is produced and
  the method sleeps for the level minus the limit, which is not negative, and a
  \<open>checkGas\<close> right after that sleep returns the limit.
\<close>

theorem C3_playlistCheck:
  assumes "response p = Some buf"
  shows
    "(md5 buf \<noteq> listhash s \<longrightarrow>
        playlistCheck md5 repr s fs p =
          Produce (updatePlaylist (s\<lparr>listhash := md5 buf\<rparr>) fs (repr buf) (attempts p) (after p))) \<and>
     (md5 buf = listhash s \<and> fst (checkGas (clock p) s) < gastanklimit s \<longrightarrow>
        playlistCheck md5 repr s fs p =
          Produce (updatePlaylist (snd (checkGas (clock p) s)) fs (repr buf) (attempts p) (after p))) \<and>
     (md5 buf = listhash s \<and> \<not> fst (checkGas (clock p) s) < gastanklimit s \<longrightarrow>
        playlistCheck md5 repr s fs p =
          Sleep (fst (checkGas (clock p) s) - gastanklimit s) (snd (checkGas (clock p) s)) \<and>
        0 \<le> fst (checkGas (clock p) s) - gastanklimit s \<and>
        fst (checkGas (clock p + (fst (checkGas (clock p) s) - gastanklimit s))
                      (snd (checkGas (clock p) s))) = gastanklimit s)"
  using assms
  by (simp add: playlistCheck_def checkGas_def Let_def)

theorem C3_playlistCheck_witness:
  "playlistCheck (\<lambda>b. b) str_of_bytes example_state [] example_poll =
     Produce (updatePlaylist (example_state\<lparr>listhash := example_body\<rparr>) [] example_list []
                example_cleanup) \<and>
   playlistCheck (\<lambda>b. b) str_of_bytes (example_state\<lparr>listhash := example_body\<rparr>) [] example_poll =
     Produce (updatePlaylist
                (example_state\<lparr>listhash := example_body, gastank := - 10, elapsedtime := 10\<rparr>)
                [] example_list [] example_cleanup) \<and>
   playlistCheck (\<lambda>b. b) str_of_bytes (example_state\<lparr>listhash := example_body, gastank := 4000\<rparr>) []
       example_poll =
     Sleep 390 (example_state\<lparr>listhash := example_body, gastank := 3990, elapsedtime := 10\<rparr>)"
proof -
  have r: "response example_poll = Some example_body" "clock example_poll = 10"
    "attempts example_poll = []" "after example_poll = example_cleanup"
    by (simp_all add: example_poll_def)
  have ne: "example_body \<noteq> []"
    by (simp add: example_body_def)
  have s: "listhash example_state = []" "gastank example_state = 0" "elapsedtime example_state = 0"
    "starttime example_state = 0" "gastanklimit example_state = 3600"
    by (simp_all add: example_state_def initRun_def init_def)
  have 1: "playlistCheck (\<lambda>b. b) str_of_bytes example_state [] example_poll =
     Produce (updatePlaylist (example_state\<lparr>listhash := example_body\<rparr>) [] example_list []
                example_cleanup)"
    using C3_playlistCheck [OF r(1), of "\<lambda>b. b" example_state str_of_bytes "[]"] ne
    by (simp add: r s example_list_def)
  have 2: "playlistCheck (\<lambda>b. b) str_of_bytes (example_state\<lparr>listhash := example_body\<rparr>) [] example_poll =
     Produce (updatePlaylist
                (example_state\<lparr>listhash := example_body, gastank := - 10, elapsedtime := 10\<rparr>)
                [] example_list [] example_cleanup)"
    using C3_playlistCheck [OF r(1), of "\<lambda>b. b" "example_state\<lparr>listhash := example_body\<rparr>" str_of_bytes "[]"]
    by (simp add: r s checkGas_def Let_def example_list_def)
  have 3: "playlistCheck (\<lambda>b. b) str_of_bytes (example_state\<lparr>listhash := example_body, gastank := 4000\<rparr>) []
       example_poll =
     Sleep 390 (example_state\<lparr>listhash := example_body, gastank := 3990, elapsedtime := 10\<rparr>)"
    using C3_playlistCheck [OF r(1), of "\<lambda>b. b"
        "example_state\<lparr>listhash := example_body, gastank := 4000\<rparr>" str_of_bytes "[]"]
    by (simp add: r s checkGas_def Let_def example_list_def)
  from 1 2 3 show ?thesis by simp
qed

section \<open>Selection of a candidate\<close>

lemma split_from_nonempty: "split_from sep acc s \<noteq> []"
  by (induction sep acc s rule: split_from.induct) auto

lemma py_split_nonempty: "py_split s sep \<noteq> []"
  by (simp add: py_split_def split_from_nonempty)

lemma choice_in_lines: "py_split s sep ! (pick mod length (py_split s sep)) \<in> set (py_split s sep)"
  using py_split_nonempty [of s sep] by simp

lemma processFile_extensions:
  "processFile s fs w file = Inr (status, s', fs') \<Longrightarrow> extensions s' = extensions s"
  by (auto simp: processFile_def Let_def addGas_def tuneQuality_frame
      split: if_splits option.splits sum.splits copy_result.splits)

lemma select_song_processed:
  "select_song s fs inputlist tries processed = Some (e, s', fs', processed') \<Longrightarrow>
   c \<in> set processed' \<Longrightarrow>
   c \<in> set processed \<or>
   (c \<in> set (py_split inputlist backslash_n) \<and>
    py_lower (last (py_split c ''.'')) \<in> set (extensions s))"
proof (induction s fs inputlist tries processed rule: select_song.induct)
  case (1 s fs inputlist processed)
  then show ?case by simp
next
  case (2 s fs inputlist pick w later processed)
  let ?lines = "py_split inputlist backslash_n"
  let ?choice = "?lines ! (pick mod length ?lines)"
  show ?case
  proof (cases "py_lower (last (py_split ?choice ''.'')) \<in> set (extensions s)")
    case False
    with 2 show ?thesis by (simp add: Let_def)
  next
    case True
    note ext = this
    show ?thesis
    proof (cases "processFile s fs w ?choice")
      case (Inl err)
      with 2 ext choice_in_lines [of inputlist backslash_n pick] show ?thesis
        by (auto simp: Let_def)
    next
      case (Inr r)
      obtain status s1 fs1 where r: "r = (status, s1, fs1)" by (cases r) auto
      have es: "extensions s1 = extensions s"
        using processFile_extensions Inr r by blast
      show ?thesis
      proof (cases "status = 0")
        case True
        with 2 ext Inr r have
          "c \<in> set (processed @ [?choice]) \<or>
           (c \<in> set ?lines \<and> py_lower (last (py_split c ''.'')) \<in> set (extensions s1))"
          by (simp add: Let_def)
        with es ext choice_in_lines [of inputlist backslash_n pick] show ?thesis by auto
      next
        case False
        with 2 ext Inr r choice_in_lines [of inputlist backslash_n pick] show ?thesis
          by (auto simp: Let_def)
      qed
    qed
  qed
qed

lemma skip_disallowed:
  assumes "extensions s = [''mp3'']"
  shows "select_song s fs longer_list (map (Pair 2) ws @ later) processed =
         select_song s fs longer_list later processed"
  using assms
  by (induction ws) (simp_all add: longer_picks example_extensions Let_def)

lemma first_line_refused:
  "processFile s fs w (''b'' @ [CHR 0x27] @ ''http://x/a.mp3'') = Inr (0, s, fs)"
proof -
  have 1: "py_split (''b'' @ [CHR 0x27] @ ''http://x/a.mp3'') ''://'' =
           [''b'' @ [CHR 0x27] @ ''http'', ''x/a.mp3'']"
    by (simp add: py_split_def)
  have 2: "quoted_url (''b'' @ [CHR 0x27] @ ''http://x/a.mp3'') =
           ''b'' @ [CHR 0x27] @ ''http://x/a.mp3''"
    using 1 by (simp add: quoted_url_def quote_def url_safe_def)
  have 3: "no_handler (''b'' @ [CHR 0x27] @ ''http://x/a.mp3'')"
    by (simp add: no_handler_def unwrap_def py_strip_def isspace_def splittag_def splittype_def
      url_handlers_def py_lower_def lower_char_def)
  show ?thesis
    using 1 3 by (simp add: processFile_def 2 [simplified])
qed

lemma example_list_never_ends:
  assumes "extensions s = [''mp3'']"
  shows "select_song s fs example_list tries processed = None"
proof (induction tries arbitrary: processed)
  case Nil
  show ?case by simp
next
  case (Cons a tries)
  obtain pick w where a: "a = (pick, w)" by (cases a)
  define c where
    "c = py_split example_list backslash_n ! (pick mod length (py_split example_list backslash_n))"
  have "c \<in> set (py_split example_list backslash_n)"
    unfolding c_def by (rule choice_in_lines)
  then have "c = ''b'' @ [CHR 0x27] @ ''http://x/a.mp3'' \<or> c = ''http://x/b.exe'' @ [CHR 0x27]"
    by (simp add: example_lines)
  then show ?case
  proof
    assume "c = ''b'' @ [CHR 0x27] @ ''http://x/a.mp3''"
    then show ?thesis
      using first_line_refused [of s fs w] Cons [of "processed @ [c]"] example_extensions(3) assms
      by (simp add: a Let_def c_def [symmetric])
  next
    assume "c = ''http://x/b.exe'' @ [CHR 0x27]"
    then show ?thesis
      using Cons [of processed] example_extensions(4) assms
      by (simp add: a Let_def c_def [symmetric])
  qed
qed

text \<open>
  Claim C5, as stated, asks that for the list of \<open>a.mp3\<close> and \<open>b.exe\<close> with the allow-list
  \<open>mp3\<close> the loop selects and encodes \<open>a.mp3\<close> within a bounded number of retries. For that
  remote list \<open>updatePlaylist\<close> is handed \<open>str(buf)\<close>, whose lines are \<open>b'http://x/a.mp3\<close>
  and \<open>http://x/b.exe'\<close>: the second is skipped for its extension, the first is refused by
  \<open>urlopen\<close> for its scheme, and the loop never ends, whatever is picked and whatever the
  world answers. And where the two candidates are lines in the middle of the list, so that
  \<open>a.mp3\<close> can be fetched, no bound exists either: for every number of picks there is a run
  of that many picks, in a world where every encoding succeeds, after which the loop is
  still running.
\<close>

theorem C5_never_bounded:
  "(\<forall>tries. select_song example_state [] example_list tries [] = None) \<and>
   \<not> (\<exists>N. \<forall>picks. length picks = N \<longrightarrow>
          select_song example_state [] longer_list (map (\<lambda>i. (i, example_world)) picks) [] \<noteq> None)"
proof
  have e: "extensions example_state = [''mp3'']"
    by (simp add: example_state_def initRun_def init_def)
  show "\<forall>tries. select_song example_state [] example_list tries [] = None"
    using example_list_never_ends [OF e] by blast
  show "\<not> (\<exists>N. \<forall>picks. length picks = N \<longrightarrow>
          select_song example_state [] longer_list (map (\<lambda>i. (i, example_world)) picks) [] \<noteq> None)"
  proof
    assume "\<exists>N. \<forall>picks. length picks = N \<longrightarrow>
          select_song example_state [] longer_list (map (\<lambda>i. (i, example_world)) picks) [] \<noteq> None"
    then obtain N where n: "\<forall>picks. length picks = N \<longrightarrow>
          select_song example_state [] longer_list (map (\<lambda>i. (i, example_world)) picks) [] \<noteq> None"
      by blast
    have "select_song example_state [] longer_list
            (map (\<lambda>i. (i, example_world)) (replicate N 2)) [] \<noteq> None"
      using n [rule_format, of "replicate N 2"] by simp
    moreover from skip_disallowed [OF e, of "[]" "replicate N example_world" "[]" "[]"]
    have "select_song example_state [] longer_list
            (map (\<lambda>i. (i, example_world)) (replicate N 2)) [] = None"
      by (simp add: map_replicate_const)
    ultimately show False by simp
  qed
qed

text \<open>
  Claim C5, amended. Whatever lines \<open>random.choice\<close> picks: every candidate the loop hands
  to \<open>processFile\<close> is a line of the list whose extension, in lower case, is in the
  allow-list; a pick with another extension is skipped with nothing changed, the object,
  the files and the candidates processed so far; and the first processed candidate for
  which \<open>processFile\<close> does not return 0 ends the loop. For the list of \<open>a.mp3\<close> and \<open>b.exe\<close>
  with the allow-list \<open>mp3\<close> every pick of the line of \<open>b.exe\<close> is skipped. Where the two
  are lines in the middle of the list, \<open>b.exe\<close> is never handed to \<open>processFile\<close>, and after
  any number of picks of \<open>b.exe\<close> a pick of \<open>a.mp3\<close> whose processing succeeds ends the loop
  with \<open>a.mp3\<close> as the only processed candidate. The number of picks before that is not
  bounded.
\<close>

theorem C5_selection:
  "(select_song s fs inputlist tries [] = Some (e, s', fs', processed) \<longrightarrow>
      (\<forall>c. c \<in> set processed \<longrightarrow>
         c \<in> set (py_split inputlist backslash_n) \<and>
         py_lower (last (py_split c ''.'')) \<in> set (extensions s))) \<and>
   (py_lower (last (py_split (py_split inputlist backslash_n !
        (pick mod length (py_split inputlist backslash_n))) ''.'')) \<notin> set (extensions s) \<longrightarrow>
      select_song s fs inputlist ((pick, w) # later) sofar =
      select_song s fs inputlist later sofar) \<and>
   (py_lower (last (py_split (py_split inputlist backslash_n !
        (pick mod length (py_split inputlist backslash_n))) ''.'')) \<in> set (extensions s) \<and>
    processFile s fs w (py_split inputlist backslash_n !
        (pick mod length (py_split inputlist backslash_n))) = Inr (status, s', fs') \<and>
    status \<noteq> 0 \<longrightarrow>
      select_song s fs inputlist ((pick, w) # later) sofar =
        Some (None, s', fs', sofar @ [py_split inputlist backslash_n !
                                      (pick mod length (py_split inputlist backslash_n))])) \<and>
   (extensions s = [''mp3''] \<and> pick mod 2 = 1 \<longrightarrow>
      select_song s fs example_list ((pick, w) # later) sofar =
      select_song s fs example_list later sofar) \<and>
   (extensions s = [''mp3''] \<and>
    select_song s fs longer_list tries [] = Some (e, s', fs', processed) \<longrightarrow>
      ''http://x/b.exe'' \<notin> set processed) \<and>
   (extensions s = [''mp3''] \<and>
    processFile s fs w ''http://x/a.mp3'' = Inr (1, s', fs') \<longrightarrow>
      select_song s fs longer_list (map (Pair 2) ws @ (1, w) # later) [] =
        Some (None, s', fs', [''http://x/a.mp3'']))"
proof (intro conjI impI allI)
  fix c
  assume "select_song s fs inputlist tries [] = Some (e, s', fs', processed)" "c \<in> set processed"
  from select_song_processed [OF this]
  show "c \<in> set (py_split inputlist backslash_n)"
    "py_lower (last (py_split c ''.'')) \<in> set (extensions s)"
    by simp_all
next
  assume "py_lower (last (py_split (py_split inputlist backslash_n !
        (pick mod length (py_split inputlist backslash_n))) ''.'')) \<notin> set (extensions s)"
  then show "select_song s fs inputlist ((pick, w) # later) sofar =
      select_song s fs inputlist later sofar"
    by (simp add: Let_def)
next
  assume "py_lower (last (py_split (py_split inputlist backslash_n !
        (pick mod length (py_split inputlist backslash_n))) ''.'')) \<in> set (extensions s) \<and>
    processFile s fs w (py_split inputlist backslash_n !
        (pick mod length (py_split inputlist backslash_n))) = Inr (status, s', fs') \<and>
    status \<noteq> 0"
  then show "select_song s fs inputlist ((pick, w) # later) sofar =
        Some (None, s', fs', sofar @ [py_split inputlist backslash_n !
                                      (pick mod length (py_split inputlist backslash_n))])"
    by (simp add: Let_def)
next
  assume a: "extensions s = [''mp3''] \<and> pick mod 2 = 1"
  have l: "length (py_split example_list backslash_n) = 2"
    by (simp add: example_lines)
  have "py_split example_list backslash_n ! (pick mod length (py_split example_list backslash_n)) =
        py_split example_list backslash_n ! 1"
    using a unfolding l by simp
  also have "\<dots> = ''http://x/b.exe'' @ [CHR 0x27]"
    by (simp add: example_lines)
  finally have c: "py_split example_list backslash_n !
      (pick mod length (py_split example_list backslash_n)) = ''http://x/b.exe'' @ [CHR 0x27]" .
  show "select_song s fs example_list ((pick, w) # later) sofar =
      select_song s fs example_list later sofar"
    unfolding select_song_choice [OF c] using a example_extensions(4) by simp
next
  assume a: "extensions s = [''mp3''] \<and>
    select_song s fs longer_list tries [] = Some (e, s', fs', processed)"
  show "''http://x/b.exe'' \<notin> set processed"
  proof
    assume "''http://x/b.exe'' \<in> set processed"
    with a select_song_processed [of s fs longer_list tries "[]" e s' fs' processed "''http://x/b.exe''"]
    show False by (simp add: example_extensions)
  qed
next
  assume a: "extensions s = [''mp3''] \<and> processFile s fs w ''http://x/a.mp3'' = Inr (1, s', fs')"
  then have "select_song s fs longer_list ((Suc 0, w) # later) [] =
      Some (None, s', fs', [''http://x/a.mp3''])"
    unfolding select_song_choice [OF longer_picks(1)] by (simp add: example_extensions)
  with a skip_disallowed [of s fs ws "(Suc 0, w) # later" "[]"]
  show "select_song s fs longer_list (map (Pair 2) ws @ (1, w) # later) [] =
        Some (None, s', fs', [''http://x/a.mp3''])"
    by simp
qed

theorem C5_selection_witness:
  "select_song example_state [] longer_list
     [(2, example_world), (2, example_world), (1, example_world)] [] =
     Some (None, tuneQuality 3 (addGas 180 (example_state\<lparr>filenumber := 1\<rparr>)),
           [(''/media/media1.flv'', \<lparr>mtime = 60, body = ''video''\<rparr>),
            (''/media/playlist1.txt'', \<lparr>mtime = 60, body = ffconcat ''media1.flv'' ''playlist2.txt''\<rparr>)],
           [''http://x/a.mp3'']) \<and>
   ''http://x/b.exe'' \<notin> set [''http://x/a.mp3''] \<and>
   select_song example_state [] example_list [(1, example_world)] [] = None"
proof -
  have e: "extensions example_state = [''mp3'']"
    by (simp add: example_state_def initRun_def init_def)
  note t = C5_selection [where s = example_state and fs = "[]" and w = example_world and
        s' = "tuneQuality 3 (addGas 180 (example_state\<lparr>filenumber := 1\<rparr>))" and
        fs' = "[(''/media/media1.flv'', \<lparr>mtime = 60, body = ''video''\<rparr>),
          (''/media/playlist1.txt'', \<lparr>mtime = 60, body = ffconcat ''media1.flv'' ''playlist2.txt''\<rparr>)]" and
        ws = "[example_world, example_world]" and later = "[]" and pick = 1 and sofar = "[]"]
  have 1: "select_song example_state [] longer_list
     [(2, example_world), (2, example_world), (1, example_world)] [] =
     Some (None, tuneQuality 3 (addGas 180 (example_state\<lparr>filenumber := 1\<rparr>)),
           [(''/media/media1.flv'', \<lparr>mtime = 60, body = ''video''\<rparr>),
            (''/media/playlist1.txt'', \<lparr>mtime = 60, body = ffconcat ''media1.flv'' ''playlist2.txt''\<rparr>)],
           [''http://x/a.mp3''])"
    using t e example_production by simp
  have 2: "select_song example_state [] example_list [(1, example_world)] [] = None"
    using t e by simp
  from 1 2 show ?thesis by simp
qed

section \<open>Decimal numbers and the natural order\<close>

lemma digit_chr_isdigit: "d < 10 \<Longrightarrow> isdigit (digit_chr d)"
proof -
  assume "d < 10"
  then have "d \<in> {0, 1, 2, 3, 4, 5, 6, 7, 8, 9}" by auto
  then show ?thesis by (auto simp: isdigit_def digit_chr_def)
qed

lemma digit_val_chr: "d < 10 \<Longrightarrow> digit_val (digit_chr d) = d"
proof -
  assume "d < 10"
  then have "d \<in> {0, 1, 2, 3, 4, 5, 6, 7, 8, 9}" by auto
  then show ?thesis by (auto simp: digit_val_def digit_chr_def)
qed

lemma str_nat_digits: "list_all isdigit (str_nat n)"
  by (induction n rule: str_nat.induct) (subst str_nat.simps, simp add: digit_chr_isdigit)

lemma str_nat_nonempty: "str_nat n \<noteq> []"
  by (subst str_nat.simps) simp

lemma int_of_digits_snoc: "int_of_digits (ds @ [c]) = 10 * int_of_digits ds + digit_val c"
  by (simp add: int_of_digits_def)

lemma int_of_str_nat: "int_of_digits (str_nat n) = n"
proof (induction n rule: str_nat.induct)
  case (1 n)
  show ?case
  proof (cases "n < 10")
    case True
    then show ?thesis
      by (subst str_nat.simps) (simp add: int_of_digits_def digit_val_chr)
  next
    case False
    with 1 have "int_of_digits (str_nat (n div 10)) = n div 10" by simp
    with False show ?thesis
      by (subst str_nat.simps) (simp add: int_of_digits_snoc digit_val_chr)
  qed
qed

lemma takeWhile_all: "list_all P xs \<Longrightarrow> takeWhile P xs = xs"
  by (induction xs) auto

lemma resplit_no_digit: "no_digit b \<Longrightarrow> resplit b = [b]"
  by (subst resplit.simps) (simp add: no_digit_def Let_def list_all_iff takeWhile_all)

lemma resplit_numbered:
  assumes "no_digit a" "ds \<noteq> []" "list_all isdigit ds" "no_digit b"
  shows "resplit (a @ ds @ b) = [a, ds, b]"
proof -
  from assms(2,3) obtain d ds' where ds: "ds = d # ds'" "isdigit d"
    by (cases ds) auto
  have t1: "takeWhile (\<lambda>c. \<not> isdigit c) (a @ ds @ b) = a"
    using assms(1) ds by (simp add: no_digit_def list_all_iff takeWhile_append)
  have d1: "dropWhile (\<lambda>c. \<not> isdigit c) (a @ ds @ b) = ds @ b"
    using assms(1) ds by (simp add: no_digit_def list_all_iff dropWhile_append)
  have t2: "takeWhile isdigit (ds @ b) = ds"
  proof (cases b)
    case Nil
    with assms(3) show ?thesis by (simp add: list_all_iff)
  next
    case (Cons c cs)
    with assms(4) have "\<not> isdigit c" by (simp add: no_digit_def)
    with assms(3) Cons show ?thesis by (simp add: list_all_iff takeWhile_append)
  qed
  have d2: "dropWhile isdigit (ds @ b) = b"
  proof (cases b)
    case Nil
    with assms(3) show ?thesis by (simp add: list_all_iff)
  next
    case (Cons c cs)
    with assms(4) have "\<not> isdigit c" by (simp add: no_digit_def)
    with assms(3) Cons show ?thesis by (simp add: list_all_iff dropWhile_append)
  qed
  show ?thesis
    by (subst resplit.simps) (simp add: Let_def t1 d1 t2 d2 assms(2) resplit_no_digit assms(4))
qed

lemma atoi_no_digit: "no_digit a \<Longrightarrow> atoi a = Txt a"
  by (cases a) (auto simp: atoi_def no_digit_def)

lemma naturalKeys_numbered:
  assumes "no_digit a" "no_digit b"
  shows "naturalKeys (a @ str_nat n @ b) = [Txt a, Num n, Txt b]"
  using assms
  by (simp add: naturalKeys_def resplit_numbered str_nat_digits str_nat_nonempty
      atoi_no_digit) (simp add: atoi_def str_nat_digits str_nat_nonempty int_of_str_nat)

lemma numbered_key_le:
  "([Txt a, Num m, Txt b] \<le> [Txt a, Num n, Txt b]) \<longleftrightarrow> m \<le> n"
  by (auto simp: less_key_part_def)

lemma insort_key_map:
  "insort_key f (g x) (map g ys) = map g (insort_key (\<lambda>y. f (g y)) x ys)"
  by (induction ys) auto

lemma sort_key_map: "sort_key f (map g xs) = map g (sort_key (\<lambda>y. f (g y)) xs)"
  by (induction xs) (simp_all add: insort_key_map)

lemma insort_key_mono:
  assumes "\<And>a b. (k a \<le> k b) \<longleftrightarrow> (a \<le> b)"
  shows "insort_key k x ys = insort x ys"
  by (induction ys) (simp_all add: assms)

lemma sort_key_mono:
  assumes "\<And>a b. (k a \<le> k b) \<longleftrightarrow> (a \<le> b)"
  shows "sort_key k xs = sort xs"
  by (induction xs) (simp_all add: insort_key_mono [of k, OF assms])

lemma natural_sort_numbered:
  assumes "no_digit a" "no_digit b"
  shows "natural_sort (map (\<lambda>n. a @ str_nat n @ b) ns) = map (\<lambda>n. a @ str_nat n @ b) (sort ns)"
proof -
  have "sort_key (\<lambda>n. naturalKeys (a @ str_nat n @ b)) ns = sort ns"
    by (rule sort_key_mono) (simp only: naturalKeys_numbered [OF assms] numbered_key_le)
  then show ?thesis
    by (simp add: natural_sort_def sort_key_map)
qed

lemma str_nat_two_digits:
  "10 \<le> n \<Longrightarrow> n < 100 \<Longrightarrow> str_nat n = [digit_chr (n div 10), digit_chr (n mod 10)]"
  by (subst str_nat.simps, simp, subst str_nat.simps, simp)

lemma natural_sort_example:
  "natural_sort [''playlist10.txt'', ''playlist2.txt'', ''playlist1.txt''] =
     [''playlist1.txt'', ''playlist2.txt'', ''playlist10.txt'']"
proof -
  have n: "no_digit ''playlist''" "no_digit ''.txt''"
    by (simp_all add: no_digit_def isdigit_def)
  have v: "str_nat 10 = ''10''" "str_nat 2 = ''2''" "str_nat (Suc 0) = ''1''"
    by (simp_all add: str_nat_small str_nat_two_digits digit_chr_def)
  show ?thesis
    using natural_sort_numbered [OF n, of "[10, 2, 1]"] by (simp add: v)
qed

section \<open>The usage pass\<close>

lemma no_digit_append: "no_digit (a @ b) \<longleftrightarrow> no_digit a \<and> no_digit b"
  by (simp add: no_digit_def)

lemma no_digit_literals:
  "no_digit ''/media''" "no_digit ''.flv''" "no_digit ''/playlist''" "no_digit ''.txt''"
  "no_digit ''playlist''"
  by (simp_all add: no_digit_def isdigit_def)

lemma filter_no_digit: "no_digit a \<Longrightarrow> filter isdigit a = []"
  by (induction a) (auto simp: no_digit_def)

lemma filter_all_digits: "list_all isdigit ds \<Longrightarrow> filter isdigit ds = ds"
  by (induction ds) auto

lemma digits_number_segment:
  assumes "no_digit d"
  shows "digits_number (segment_path d n) = Inr n"
proof -
  have "filter isdigit (segment_path d n) =
        filter isdigit d @ filter isdigit ''/media'' @ filter isdigit (str_nat n) @
        filter isdigit ''.flv''"
    by (simp only: segment_path_def filter_append)
  also have "\<dots> = str_nat n"
    by (simp only: filter_no_digit [OF assms] filter_no_digit [OF no_digit_literals(1)]
        filter_no_digit [OF no_digit_literals(2)] filter_all_digits [OF str_nat_digits]
        append_Nil append_Nil2)
  finally have "filter isdigit (segment_path d n) = str_nat n" .
  then show ?thesis
    by (simp add: digits_number_def str_nat_nonempty int_of_str_nat)
qed

lemma str_nat_inj: "str_nat m = str_nat n \<Longrightarrow> m = n"
  by (metis int_of_str_nat)

lemma segment_path_inj: "segment_path d m = segment_path d n \<longleftrightarrow> m = n"
  by (auto simp: segment_path_def dest: str_nat_inj)

lemma chain_path_inj: "chain_path d m = chain_path d n \<longleftrightarrow> m = n"
  by (auto simp: chain_path_def dest: str_nat_inj)

lemma chain_not_segment: "chain_path d m \<noteq> segment_path d n"
  by (simp add: chain_path_def segment_path_def)

lemma path_join_segment:
  "usable_mediapath d \<Longrightarrow> path_join d (segment_path d n) = segment_path d n"
  by (auto simp: usable_mediapath_def path_join_def segment_path_def prefix_def)

lemma path_join_chain:
  "usable_mediapath d \<Longrightarrow> path_join d (''playlist'' @ str_nat n @ ''.txt'') = chain_path d n"
  by (auto simp: usable_mediapath_def path_join_def chain_path_def prefix_def)

lemma exists_delete: "exists (AList.delete p fs) q \<longleftrightarrow> q \<noteq> p \<and> exists fs q"
  by (simp add: exists_def delete_conv')

lemma usage_pass_step:
  assumes "usable_mediapath (mediapath s)" "snd (du k) \<noteq> 0" "over_threshold (du k)"
    "exists fs (segment_path (mediapath s) n)" "exists fs (chain_path (mediapath s) n)"
  shows "usage_pass s du k (segment_path (mediapath s) n # rest) fs =
         usage_pass s du (Suc k) rest (remove_segment (mediapath s) n fs)"
proof -
  have nd: "no_digit (mediapath s)" using assms(1) by (simp add: usable_mediapath_def)
  have o: "real (fst (du k)) / real (snd (du k)) > 0.8"
    using assms(3) by (simp add: over_threshold_def)
  note pj = path_join_chain [OF assms(1), of n, simplified]
  show ?thesis
    using assms(2,4,5) o
    by (subst usage_pass.simps)
      (simp add: digits_number_segment [OF nd] path_join_segment [OF assms(1)]
        pj os_remove_def exists_delete chain_not_segment remove_segment_def)
qed

lemma usage_pass_refines:
  assumes "usable_mediapath (mediapath s)" "\<forall>k. snd (du k) \<noteq> 0"
  shows "distinct ns \<Longrightarrow>
    \<forall>n\<in>set ns. exists fs (segment_path (mediapath s) n) \<and> exists fs (chain_path (mediapath s) n) \<Longrightarrow>
    \<exists>go. usage_pass s du k (map (segment_path (mediapath s)) ns) fs =
          Done (go, spec_usage_pass (mediapath s) du k ns fs)"
proof (induction ns arbitrary: k fs)
  case Nil
  from assms(2) have "snd (du k) \<noteq> 0" by simp
  then show ?case by (subst usage_pass.simps) auto
next
  case (Cons n ns)
  from assms(2) have t: "snd (du k) \<noteq> 0" by simp
  show ?case
  proof (cases "over_threshold (du k)")
    case False
    then have "\<not> real (fst (du k)) / real (snd (du k)) > 0.8"
      by (simp add: over_threshold_def)
    with t False show ?thesis by (subst usage_pass.simps) auto
  next
    case True
    let ?fs = "remove_segment (mediapath s) n fs"
    from Cons.prems have e: "exists fs (segment_path (mediapath s) n)"
      "exists fs (chain_path (mediapath s) n)" by simp_all
    have "\<forall>m\<in>set ns. exists ?fs (segment_path (mediapath s) m) \<and>
                      exists ?fs (chain_path (mediapath s) m)"
      using Cons.prems
      by (auto simp: remove_segment_def exists_delete segment_path_inj chain_path_inj
          chain_not_segment chain_not_segment [symmetric])
    moreover from Cons.prems have "distinct ns" by simp
    ultimately have "\<exists>go. usage_pass s du (Suc k) (map (segment_path (mediapath s)) ns) ?fs =
         Done (go, spec_usage_pass (mediapath s) du (Suc k) ns ?fs)"
      using Cons.IH by blast
    moreover have "usage_pass s du k (segment_path (mediapath s) n # map (segment_path (mediapath s)) ns) fs =
         usage_pass s du (Suc k) (map (segment_path (mediapath s)) ns) ?fs"
      using assms(1) t True e by (rule usage_pass_step)
    ultimately show ?thesis using True by simp
  qed
qed

lemma natural_sort_segments:
  assumes "no_digit d"
  shows "natural_sort (map (segment_path d) ns) = map (segment_path d) (sort ns)"
proof -
  have "no_digit (d @ ''/media'')" using assms by (simp add: no_digit_append no_digit_literals)
  from natural_sort_numbered [OF this no_digit_literals(2), of ns] show ?thesis
    by (simp add: segment_path_def [abs_def])
qed

lemma glob_exists: "p \<in> set (glob d pre suf fs) \<Longrightarrow> exists fs p"
  by (auto simp: glob_def exists_def map_of_eq_None_iff)

lemma example_mediapath: "mediapath example_state = ''/media''"
  by (simp add: example_state_def initRun_def init_def)

lemma usable_media: "usable_mediapath ''/media''"
  by (simp add: usable_mediapath_def no_digit_def isdigit_def suffix_to_prefix)

lemma example_names:
  "segment_path ''/media'' 10 = ''/media/media10.flv''"
  "segment_path ''/media'' 2 = ''/media/media2.flv''"
  "segment_path ''/media'' (Suc 0) = ''/media/media1.flv''"
  "chain_path ''/media'' 10 = ''/media/playlist10.txt''"
  "chain_path ''/media'' 2 = ''/media/playlist2.txt''"
  "chain_path ''/media'' (Suc 0) = ''/media/playlist1.txt''"
  "chain_path ''/media'' 0 = ''/media/playlist0.txt''"
  by (simp_all add: segment_path_def chain_path_def str_nat_small str_nat_two_digits digit_chr_def)

lemma example_glob_media:
  "glob ''/media'' ''media'' ''.flv'' example_tree = map (segment_path ''/media'') [10, 2, 1]"
  by (simp add: example_names glob_def example_tree_def in_dir_def glob_match_def suffix_to_prefix)

text \<open>
  Claim C4. Let the media path be usable, the \<open>media*.flv\<close> files of the media directory be
  the segments with the numbers \<open>ns\<close> (in any order, no number twice), each with its chain
  file, and the disk never report a total of 0. Then the list the usage pass works on holds
  the segments by increasing number, and the pass returns without an exception, having
  done what the specification says: while the used fraction exceeds 0.8 it removed the
  lowest-numbered remaining segment together with its \<open>playlist<N>.txt\<close> and read the usage
  again, stopping at a reading at or below 0.8 or when no segment remained.
\<close>

theorem C4_usage_pass:
  assumes "usable_mediapath (mediapath s)"
    and "glob (mediapath s) ''media'' ''.flv'' fs = map (segment_path (mediapath s)) ns"
    and "distinct ns"
    and "\<forall>n\<in>set ns. exists fs (chain_path (mediapath s) n)"
    and "\<forall>k. snd (du k) \<noteq> 0"
  shows "natural_sort (glob (mediapath s) ''media'' ''.flv'' fs) =
           map (segment_path (mediapath s)) (sort ns) \<and>
         (\<exists>go. usage_pass s du 0 (natural_sort (glob (mediapath s) ''media'' ''.flv'' fs)) fs =
                 Done (go, spec_usage_pass (mediapath s) du 0 (sort ns) fs))"
proof -
  have nd: "no_digit (mediapath s)" using assms(1) by (simp add: usable_mediapath_def)
  have srt: "natural_sort (glob (mediapath s) ''media'' ''.flv'' fs) =
           map (segment_path (mediapath s)) (sort ns)"
    by (simp add: assms(2) natural_sort_segments [OF nd])
  have "\<forall>n\<in>set ns. exists fs (segment_path (mediapath s) n)"
  proof
    fix n assume "n \<in> set ns"
    then have "segment_path (mediapath s) n \<in> set (glob (mediapath s) ''media'' ''.flv'' fs)"
      by (simp add: assms(2))
    then show "exists fs (segment_path (mediapath s) n)" by (rule glob_exists)
  qed
  with assms(4) have
    "\<forall>n\<in>set (sort ns). exists fs (segment_path (mediapath s) n) \<and>
                         exists fs (chain_path (mediapath s) n)"
    by simp
  moreover have "distinct (sort ns)" using assms(3) by simp
  ultimately have
    "\<exists>go. usage_pass s du 0 (map (segment_path (mediapath s)) (sort ns)) fs =
          Done (go, spec_usage_pass (mediapath s) du 0 (sort ns) fs)"
    using usage_pass_refines [OF assms(1) assms(5)] by blast
  with srt show ?thesis by simp
qed

theorem C4_usage_pass_witness:
  "natural_sort (glob (mediapath example_state) ''media'' ''.flv'' example_tree) =
     [''/media/media1.flv'', ''/media/media2.flv'', ''/media/media10.flv''] \<and>
   (\<exists>go. usage_pass example_state example_usage 0
           (natural_sort (glob (mediapath example_state) ''media'' ''.flv'' example_tree))
           example_tree =
         Done (go,
           [(''/media/playlist0.txt'', \<lparr>mtime = 0, body = ffconcat ''startup.flv'' ''playlist1.txt''\<rparr>),
            (''/media/startup.flv'', \<lparr>mtime = 0, body = ''intro''\<rparr>),
            (''/media/media10.flv'', \<lparr>mtime = 9000, body = ''ten''\<rparr>),
            (''/media/playlist10.txt'', \<lparr>mtime = 9000, body = ffconcat ''media10.flv'' ''playlist11.txt''\<rparr>),
            (''/media/media2.flv'', \<lparr>mtime = 1000, body = ''two''\<rparr>),
            (''/media/playlist2.txt'', \<lparr>mtime = 1000, body = ffconcat ''media2.flv'' ''playlist3.txt''\<rparr>)]))"
proof -
  have 1: "usable_mediapath (mediapath example_state)"
    by (simp add: example_mediapath usable_media)
  have 2: "glob (mediapath example_state) ''media'' ''.flv'' example_tree =
           map (segment_path (mediapath example_state)) [10, 2, 1]"
    by (simp only: example_mediapath example_glob_media)
  have 3: "distinct [10, 2, 1 :: nat]" by simp
  have 4: "\<forall>n\<in>set [10, 2, 1]. exists example_tree (chain_path (mediapath example_state) n)"
    by (simp add: example_mediapath example_names exists_def example_tree_def)
  have 5: "\<forall>k. snd (example_usage k) \<noteq> 0"
    by (simp add: example_usage_def)
  have s: "sort [10, 2, 1 :: nat] = [1, 2, 10]" by simp
  have r: "spec_usage_pass ''/media'' example_usage 0 [1, 2, 10] example_tree =
           [(''/media/playlist0.txt'', \<lparr>mtime = 0, body = ffconcat ''startup.flv'' ''playlist1.txt''\<rparr>),
            (''/media/startup.flv'', \<lparr>mtime = 0, body = ''intro''\<rparr>),
            (''/media/media10.flv'', \<lparr>mtime = 9000, body = ''ten''\<rparr>),
            (''/media/playlist10.txt'', \<lparr>mtime = 9000, body = ffconcat ''media10.flv'' ''playlist11.txt''\<rparr>),
            (''/media/media2.flv'', \<lparr>mtime = 1000, body = ''two''\<rparr>),
            (''/media/playlist2.txt'', \<lparr>mtime = 1000, body = ffconcat ''media2.flv'' ''playlist3.txt''\<rparr>)]"
    by (simp add: example_usage_def over_threshold_def remove_segment_def example_names
        example_tree_def)
  note c = C4_usage_pass [OF 1 2 3 4 5, unfolded example_mediapath s r]
  have a: "natural_sort (glob ''/media'' ''media'' ''.flv'' example_tree) =
     [''/media/media1.flv'', ''/media/media2.flv'', ''/media/media10.flv'']"
    using c by (simp add: example_names)
  show ?thesis
    unfolding example_mediapath using a c by blast
qed

section \<open>Entry file: updateStartup\<close>

lemma split_from_no_sep:
  "CHR ''/'' \<notin> set b \<Longrightarrow> split_from ''/'' acc b = [rev acc @ b]"
  by (induction b arbitrary: acc) auto

lemma last_split_from:
  "CHR ''/'' \<notin> set b \<Longrightarrow> last (split_from ''/'' acc (a @ CHR ''/'' # b)) = b"
proof (induction a arbitrary: acc)
  case Nil
  then show ?case by (simp add: split_from_no_sep)
next
  case (Cons c a)
  then show ?case by (cases "c = CHR ''/''") (simp_all add: split_from_nonempty)
qed

lemma path_name_in_dir:
  "CHR ''/'' \<notin> set b \<Longrightarrow> last (py_split (a @ ''/'' @ b) ''/'') = b"
  using last_split_from [of b "[]" a] by (simp add: py_split_def)

lemma isdigit_slash: "\<not> isdigit CHR ''/''"
  by (simp add: isdigit_def)

lemma str_nat_no_slash: "CHR ''/'' \<notin> set (str_nat n)"
  using str_nat_digits [of n] isdigit_slash by (auto simp: list_all_iff)

lemma chain_basename:
  "last (py_split (chain_path d n) ''/'') = ''playlist'' @ str_nat n @ ''.txt''"
proof -
  have "CHR ''/'' \<notin> set (''playlist'' @ str_nat n @ ''.txt'')"
    using str_nat_no_slash [of n] by simp
  from path_name_in_dir [OF this, of d] show ?thesis
    by (simp add: chain_path_def)
qed

lemma natural_sort_chains:
  assumes "no_digit d"
  shows "natural_sort (map (chain_path d) ns) = map (chain_path d) (sort ns)"
proof -
  have "no_digit (d @ ''/playlist'')" using assms by (simp add: no_digit_append no_digit_literals)
  from natural_sort_numbered [OF this no_digit_literals(4), of ns] show ?thesis
    by (simp add: chain_path_def [abs_def])
qed

lemma sort_with_zero:
  fixes ns :: "nat list"
  assumes "distinct ns" "0 \<in> set ns"
  shows "sort ns = 0 # sort (filter (\<lambda>n. 0 < n) ns)"
proof (rule sorted_distinct_set_unique)
  show "sorted (sort ns)" by simp
  show "distinct (sort ns)" using assms(1) by simp
  show "sorted (0 # sort (filter (\<lambda>n. 0 < n) ns))" by simp
  show "distinct (0 # sort (filter (\<lambda>n. 0 < n) ns))" using assms(1) by simp
  show "set (sort ns) = set (0 # sort (filter (\<lambda>n. 0 < n) ns))"
    using assms(2) by auto
qed

lemma hd_sort_Min:
  fixes xs :: "nat list"
  assumes "xs \<noteq> []"
  shows "\<exists>ys. sort xs = Min (set xs) # ys"
proof -
  from assms have "sort xs \<noteq> []" by (metis length_0_conv length_sort)
  then obtain y ys where s: "sort xs = y # ys" by (cases "sort xs") auto
  have "y \<in> set xs" using s by (metis list.set_intros(1) set_sort)
  moreover have "\<forall>z\<in>set xs. y \<le> z"
  proof
    fix z assume "z \<in> set xs"
    then have "z \<in> set (y # ys)" using s by (metis set_sort)
    moreover have "sorted (y # ys)" using s by (metis sorted_sort)
    ultimately show "y \<le> z" by auto
  qed
  ultimately have "Min (set xs) = y" by (intro Min_eqI) auto
  with s show ?thesis by simp
qed

text \<open>
  Claim C8. Let the media path be \<open>/media\<close> (as \<open>main.py\<close> sets it; the entry file is
  written under that fixed name), and let the \<open>playlist*.txt\<close> files of the media directory
  be the chain files with the numbers \<open>ns\<close>, in any order, no number twice, the bootstrap
  \<open>playlist0.txt\<close> among them. Then \<open>updateStartup\<close> works on the chain files by
  increasing number; if the bootstrap is the only chain file it returns with the file
  system unchanged; otherwise, the entry file being writable, it replaces the content of
  \<open>/media/playlist0.txt\<close> by the ffconcat header, the startup asset and the name of the
  chain file with the least number other than 0, and touches nothing else.
\<close>

theorem C8_updateStartup:
  assumes "mediapath s = ''/media''"
    and "glob (mediapath s) ''playlist'' ''.txt'' fs = map (chain_path ''/media'') ns"
    and "distinct ns"
    and "0 \<in> set ns"
  shows "natural_sort (glob (mediapath s) ''playlist'' ''.txt'' fs) =
           map (chain_path ''/media'') (sort ns) \<and>
         (filter (\<lambda>n. 0 < n) ns = [] \<longrightarrow> updateStartup s now writable fs = Done fs) \<and>
         (filter (\<lambda>n. 0 < n) ns \<noteq> [] \<and> writable \<longrightarrow>
            updateStartup s now writable fs =
              Done (write_file (chain_path ''/media'' 0)
                     \<lparr>mtime = now,
                      body = ffconcat ''startup.flv''
                        (''playlist'' @ str_nat (Min (set (filter (\<lambda>n. 0 < n) ns))) @ ''.txt'')\<rparr>
                     fs))"
proof -
  have nd: "no_digit ''/media''" by (simp add: no_digit_def isdigit_def)
  have srt: "natural_sort (glob (mediapath s) ''playlist'' ''.txt'' fs) =
           map (chain_path ''/media'') (sort ns)"
    by (simp add: assms(2) natural_sort_chains [OF nd])
  have z: "sort ns = 0 # sort (filter (\<lambda>n. 0 < n) ns)"
    using assms(3,4) by (rule sort_with_zero)
  have p0: "chain_path ''/media'' 0 = ''/media/playlist0.txt''"
    by (simp add: chain_path_def str_nat_small digit_chr_def)
  have a: "updateStartup s now writable fs = Done fs" if "filter (\<lambda>n. 0 < n) ns = []"
    using that by (simp add: updateStartup_def srt z)
  have b: "updateStartup s now writable fs =
              Done (write_file (chain_path ''/media'' 0)
                     \<lparr>mtime = now,
                      body = ffconcat ''startup.flv''
                        (''playlist'' @ str_nat (Min (set (filter (\<lambda>n. 0 < n) ns))) @ ''.txt'')\<rparr>
                     fs)"
    if "filter (\<lambda>n. 0 < n) ns \<noteq> []" "writable"
  proof -
    from hd_sort_Min [OF that(1)] obtain ys where
      "sort (filter (\<lambda>n. 0 < n) ns) = Min (set (filter (\<lambda>n. 0 < n) ns)) # ys" by blast
    then show ?thesis
      using that(2) by (simp add: updateStartup_def srt z chain_basename p0)
  qed
  from srt a b show ?thesis by blast
qed

lemma example_glob_chain:
  "glob ''/media'' ''playlist'' ''.txt'' example_tree = map (chain_path ''/media'') [0, 10, 2, 1]"
  by (simp add: example_names glob_def example_tree_def in_dir_def glob_match_def suffix_to_prefix)

lemma bootstrap_glob_chain:
  "glob ''/media'' ''playlist'' ''.txt'' bootstrap_tree = map (chain_path ''/media'') [0]"
  by (simp add: example_names glob_def bootstrap_tree_def in_dir_def glob_match_def suffix_to_prefix)

theorem C8_updateStartup_witness:
  "natural_sort (glob ''/media'' ''playlist'' ''.txt'' example_tree) =
     [''/media/playlist0.txt'', ''/media/playlist1.txt'', ''/media/playlist2.txt'',
      ''/media/playlist10.txt''] \<and>
   updateStartup example_state 7 True example_tree =
     Done (write_file ''/media/playlist0.txt''
            \<lparr>mtime = 7, body = ffconcat ''startup.flv'' ''playlist1.txt''\<rparr> example_tree) \<and>
   updateStartup example_state 7 True bootstrap_tree = Done bootstrap_tree"
proof -
  have g1: "glob (mediapath example_state) ''playlist'' ''.txt'' example_tree =
      map (chain_path ''/media'') [0, 10, 2, 1]"
    unfolding example_mediapath by (rule example_glob_chain)
  have g2: "glob (mediapath example_state) ''playlist'' ''.txt'' bootstrap_tree =
      map (chain_path ''/media'') [0]"
    unfolding example_mediapath by (rule bootstrap_glob_chain)
  have d1: "distinct [0, 10, 2, 1::nat]" by simp
  have z1: "0 \<in> set [0, 10, 2, 1::nat]" by simp
  have d2: "distinct [0::nat]" by simp
  have z2: "0 \<in> set [0::nat]" by simp
  have m: "Min (set (filter (\<lambda>n. 0 < n) [0, 10, 2, 1::nat])) = Suc 0" by simp
  have f: "filter (\<lambda>n. 0 < n) [0, 10, 2, 1::nat] \<noteq> []" by simp
  have e: "filter (\<lambda>n. 0 < n) [0::nat] = []" by simp
  have st: "sort [0, 10, 2, 1::nat] = [0, 1, 2, 10]" by simp
  note a = C8_updateStartup [OF example_mediapath g1 d1 z1, of 7 True]
  note b = C8_updateStartup [OF example_mediapath g2 d2 z2, of 7 True]
  have 1: "natural_sort (glob ''/media'' ''playlist'' ''.txt'' example_tree) =
     [''/media/playlist0.txt'', ''/media/playlist1.txt'', ''/media/playlist2.txt'',
      ''/media/playlist10.txt'']"
    using a unfolding example_mediapath st by (simp add: example_names)
  have 2: "updateStartup example_state 7 True example_tree =
     Done (write_file ''/media/playlist0.txt''
            \<lparr>mtime = 7, body = ffconcat ''startup.flv'' ''playlist1.txt''\<rparr> example_tree)"
  proof -
    from a f have "updateStartup example_state 7 True example_tree =
        Done (write_file (chain_path ''/media'' 0)
               \<lparr>mtime = 7,
                body = ffconcat ''startup.flv''
                  (''playlist'' @ str_nat (Min (set (filter (\<lambda>n. 0 < n) [0, 10, 2, 1::nat]))) @ ''.txt'')\<rparr>
               example_tree)" by blast
    then show ?thesis unfolding m by (simp add: example_names str_nat_small digit_chr_def)
  qed
  have 3: "updateStartup example_state 7 True bootstrap_tree = Done bootstrap_tree"
    using b e by blast
  from 1 2 3 show ?thesis by blast
qed

section \<open>Cache eviction and the manifest\<close>

lemma map_of_os_remove:
  "os_remove p fs = Inr fs1 \<Longrightarrow> map_of fs1 q = (if q = p then None else map_of fs q)"
  by (auto simp: os_remove_def delete_conv split: if_splits)

lemma sweep_keeps:
  assumes "\<forall>file\<in>set files. path_name file \<notin> set mf \<longrightarrow> drop 2 file \<noteq> n"
  shows "map_of (state_after (sweep mf files cwd)) n = map_of cwd n"
  using assms by (induction files arbitrary: cwd) (auto simp: map_of_os_remove split: sum.splits)

lemma path_name_cwd: "CHR ''/'' \<notin> set n \<Longrightarrow> path_name (''./'' @ n) = n"
  using path_name_in_dir [of n "''.''"] by (simp add: path_name_def)

lemma sweep_manifest:
  assumes "n \<in> set mf" "CHR ''/'' \<notin> set n"
  shows "map_of (state_after (sweep mf (cwd_glob cwd) cwd)) n = map_of cwd n"
proof (rule sweep_keeps, intro ballI impI)
  fix item
  assume f: "item \<in> set (cwd_glob cwd)" and p: "path_name item \<notin> set mf"
  from f obtain m where m: "item = ''./'' @ m" by (auto simp: cwd_glob_def)
  show "drop 2 item \<noteq> n"
  proof
    assume "drop 2 item = n"
    with m have "item = ''./'' @ n" by simp
    with path_name_cwd [OF assms(2)] have "path_name item = n" by metis
    with p assms(1) show False by simp
  qed
qed

lemma age_pass_frame:
  assumes "map_of (state_after (age_pass s t filelist fs)) p \<noteq> map_of fs p"
  shows "map_of (state_after (age_pass s t filelist fs)) p = None \<and>
         (p \<in> path_join (mediapath s) ` set filelist \<or>
          (\<exists>N. p = path_join (mediapath s) (''playlist'' @ str_nat N @ ''.txt'')))"
  using assms
proof (induction filelist arbitrary: fs)
  case Nil
  then show ?case by simp
next
  case (Cons item rest)
  let ?a = "path_join (mediapath s) item"
  show ?case
  proof (cases "map_of fs ?a")
    case None
    with Cons.prems show ?thesis by simp
  next
    case (Some st)
    show ?thesis
    proof (cases "mtime st < t")
      case False
      with Some have e: "age_pass s t (item # rest) fs = age_pass s t rest fs" by simp
      from Cons.IH [of fs] Cons.prems show ?thesis unfolding e by auto
    next
      case True
      show ?thesis
      proof (cases "digits_number item")
        case (Inl e)
        with Some True Cons.prems show ?thesis by simp
      next
        case (Inr number)
        let ?b = "path_join (mediapath s) (''playlist'' @ str_nat number @ ''.txt'')"
        from Some have r1: "os_remove ?a fs = Inr (AList.delete ?a fs)"
          by (simp add: os_remove_def exists_def)
        let ?fs1 = "AList.delete ?a fs"
        have m1: "\<And>q. map_of ?fs1 q = (if q = ?a then None else map_of fs q)"
          by (simp add: delete_conv)
        show ?thesis
        proof (cases "os_remove ?b ?fs1")
          case (Inl e)
          with Some True Inr r1 have e: "age_pass s t (item # rest) fs = Raised e ?fs1" by simp
          from Cons.prems show ?thesis unfolding e by (auto simp: m1 split: if_splits)
        next
          case (Inr fs2)
          note r2 = this
          have m2: "\<And>q. map_of fs2 q = (if q = ?b then None else map_of ?fs1 q)"
            using r2 by (rule map_of_os_remove)
          from Some True \<open>digits_number item = Inr number\<close> r1 r2
          have e: "age_pass s t (item # rest) fs = age_pass s t rest fs2" by simp
          show ?thesis
          proof (cases "map_of (state_after (age_pass s t rest fs2)) p = map_of fs2 p")
            case True
            with Cons.prems have "map_of fs2 p \<noteq> map_of fs p" unfolding e by simp
            then have "p = ?a \<or> p = ?b" "map_of fs2 p = None"
              by (auto simp: m2 m1 split: if_splits)
            with True show ?thesis unfolding e by auto
          next
            case False
            from Cons.IH [OF False] show ?thesis unfolding e by auto
          qed
        qed
      qed
    qed
  qed
qed

lemma usage_pass_frame:
  assumes "map_of (snd (state_after (usage_pass s du k filelist fs))) p \<noteq> map_of fs p"
  shows "map_of (snd (state_after (usage_pass s du k filelist fs))) p = None \<and>
         (p \<in> path_join (mediapath s) ` set filelist \<or>
          (\<exists>N. p = path_join (mediapath s) (''playlist'' @ str_nat N @ ''.txt'')))"
  using assms
proof (induction filelist arbitrary: k fs)
  case Nil
  then show ?case by (subst (asm) usage_pass.simps) (simp split: if_splits)
next
  case (Cons item rest)
  let ?a = "path_join (mediapath s) item"
  show ?case
  proof (cases "snd (du k) \<noteq> 0 \<and> real (fst (du k)) / real (snd (du k)) > 0.8")
    case False
    with Cons.prems show ?thesis
      by (subst (asm) usage_pass.simps) (auto split: if_splits)
  next
    case over: True
    show ?thesis
    proof (cases "digits_number item")
      case (Inl e)
      with over Cons.prems show ?thesis
        by (subst (asm) usage_pass.simps) (auto split: if_splits)
    next
      case (Inr number)
      note dn = this
      let ?b = "path_join (mediapath s) (''playlist'' @ str_nat number @ ''.txt'')"
      show ?thesis
      proof (cases "os_remove ?a fs")
        case (Inl e)
        with over dn Cons.prems show ?thesis
          by (subst (asm) usage_pass.simps) (auto split: if_splits)
      next
        case (Inr fs1)
        note r1 = this
        have m1: "\<And>q. map_of fs1 q = (if q = ?a then None else map_of fs q)"
          using r1 by (rule map_of_os_remove)
        show ?thesis
        proof (cases "os_remove ?b fs1")
          case (Inl e)
          with over dn r1 have e: "usage_pass s du k (item # rest) fs = Raised e (False, fs1)"
            by (subst usage_pass.simps) auto
          from Cons.prems show ?thesis unfolding e by (auto simp: m1 split: if_splits)
        next
          case (Inr fs2)
          note r2 = this
          have m2: "\<And>q. map_of fs2 q = (if q = ?b then None else map_of fs1 q)"
            using r2 by (rule map_of_os_remove)
          from over dn r1 r2
          have e: "usage_pass s du k (item # rest) fs = usage_pass s du (Suc k) rest fs2"
            by (subst usage_pass.simps) auto
          show ?thesis
          proof (cases "map_of (snd (state_after (usage_pass s du (Suc k) rest fs2))) p = map_of fs2 p")
            case True
            with Cons.prems have "map_of fs2 p \<noteq> map_of fs p" unfolding e by simp
            then have "p = ?a \<or> p = ?b" "map_of fs2 p = None"
              by (auto simp: m2 m1 split: if_splits)
            with True show ?thesis unfolding e by auto
          next
            case False
            from Cons.IH [OF False] show ?thesis unfolding e by auto
          qed
        qed
      qed
    qed
  qed
qed

lemma glob_subset:
  assumes "\<And>p. map_of fs' p \<noteq> None \<Longrightarrow> map_of fs p \<noteq> None"
  shows "set (glob d pre suf fs') \<subseteq> set (glob d pre suf fs)"
proof
  fix p assume "p \<in> set (glob d pre suf fs')"
  then have a: "p \<in> fst ` set fs'" and b: "in_dir d p \<and> glob_match pre suf (drop (length d + 1) p)"
    by (auto simp: glob_def)
  from a have "map_of fs' p \<noteq> None" by (simp add: map_of_eq_None_iff)
  then have "map_of fs p \<noteq> None" by (rule assms)
  then have "p \<in> fst ` set fs" by (simp add: map_of_eq_None_iff)
  with b show "p \<in> set (glob d pre suf fs)" by (auto simp: glob_def)
qed

lemma set_natural_sort: "set (natural_sort xs) = set xs"
  by (simp add: natural_sort_def)

lemma cleanCache_tree:
  "fst (state_after (cleanCache s now du cwd fs)) =
     (let fs1 = state_after (age_pass s (now - 5400)
                  (natural_sort (glob (mediapath s) ''media'' ''.flv'' fs)) fs)
      in case age_pass s (now - 5400) (natural_sort (glob (mediapath s) ''media'' ''.flv'' fs)) fs of
           Raised e x \<Rightarrow> fs1
         | Done x \<Rightarrow> snd (state_after (usage_pass s du 0
                      (natural_sort (glob (mediapath s) ''media'' ''.flv'' fs1)) fs1)))"
  by (simp add: cleanCache_def Let_def split: outcome.splits prod.splits)

lemma cleanCache_workdir:
  "snd (state_after (cleanCache s now du cwd fs)) = cwd \<or>
   snd (state_after (cleanCache s now du cwd fs)) =
     state_after (sweep (manifest s) (cwd_glob cwd) cwd)"
  by (simp add: cleanCache_def split: outcome.splits prod.splits)

text \<open>
  Claim C7, amended. Whatever the clock, the disk readings and the two directories, and
  whether \<open>cleanCache\<close> returns or raises: every entry of the working directory whose name
  is in the manifest is left as it was; and a path of the file tree whose content differs
  afterwards has been removed and is either one of the \<open>media*.flv\<close> files the media
  directory held at the start or a \<open>playlist<N>.txt\<close> of the media directory. The manifest
  protects against the sweep of the working directory only.
\<close>

theorem C7_manifest_in_sweep:
  "(\<forall>n. n \<in> set (manifest s) \<and> CHR ''/'' \<notin> set n \<longrightarrow>
        map_of (snd (state_after (cleanCache s now du cwd fs))) n = map_of cwd n) \<and>
   (\<forall>p. map_of (fst (state_after (cleanCache s now du cwd fs))) p \<noteq> map_of fs p \<longrightarrow>
        map_of (fst (state_after (cleanCache s now du cwd fs))) p = None \<and>
        (p \<in> path_join (mediapath s) ` set (glob (mediapath s) ''media'' ''.flv'' fs) \<or>
         (\<exists>N. p = path_join (mediapath s) (''playlist'' @ str_nat N @ ''.txt''))))"
proof (intro conjI allI)
  fix n
  show "n \<in> set (manifest s) \<and> CHR ''/'' \<notin> set n \<longrightarrow>
        map_of (snd (state_after (cleanCache s now du cwd fs))) n = map_of cwd n"
  proof
    assume "n \<in> set (manifest s) \<and> CHR ''/'' \<notin> set n"
    then have "map_of (state_after (sweep (manifest s) (cwd_glob cwd) cwd)) n = map_of cwd n"
      by (simp add: sweep_manifest)
    with cleanCache_workdir [of s now du cwd fs]
    show "map_of (snd (state_after (cleanCache s now du cwd fs))) n = map_of cwd n" by auto
  qed
next
  fix p
  let ?l0 = "natural_sort (glob (mediapath s) ''media'' ''.flv'' fs)"
  let ?o1 = "age_pass s (now - 5400) ?l0 fs"
  let ?fs1 = "state_after ?o1"
  let ?l1 = "natural_sort (glob (mediapath s) ''media'' ''.flv'' ?fs1)"
  let ?fs2 = "snd (state_after (usage_pass s du 0 ?l1 ?fs1))"
  let ?r = "fst (state_after (cleanCache s now du cwd fs))"
  let ?Q = "\<lambda>p. p \<in> path_join (mediapath s) ` set (glob (mediapath s) ''media'' ''.flv'' fs) \<or>
         (\<exists>N. p = path_join (mediapath s) (''playlist'' @ str_nat N @ ''.txt''))"
  have main: "map_of ?r p = None \<and> ?Q p" if ch: "map_of ?r p \<noteq> map_of fs p"
  proof -
  have f1: "map_of ?fs1 q = None \<and> ?Q q" if "map_of ?fs1 q \<noteq> map_of fs q" for q
    using age_pass_frame [OF that] by (simp add: set_natural_sort)
  have sub: "set (glob (mediapath s) ''media'' ''.flv'' ?fs1) \<subseteq>
             set (glob (mediapath s) ''media'' ''.flv'' fs)"
  proof (rule glob_subset)
    fix q assume "map_of ?fs1 q \<noteq> None"
    with f1 [of q] show "map_of fs q \<noteq> None" by metis
  qed
  have f2: "map_of ?fs2 q = None \<and> ?Q q" if "map_of ?fs2 q \<noteq> map_of ?fs1 q" for q
    using usage_pass_frame [OF that] sub by (auto simp: set_natural_sort)
  have r: "?r = ?fs1 \<or> ?r = ?fs2"
    by (simp add: cleanCache_tree Let_def split: outcome.splits)
  have g: "map_of ?fs2 p = None \<and> ?Q p" if "map_of ?fs2 p \<noteq> map_of fs p"
  proof (cases "map_of ?fs2 p = map_of ?fs1 p")
    case True
    with that f1 [of p] show ?thesis by simp
  next
    case False
    then show ?thesis by (rule f2)
  qed
  from r show "map_of ?r p = None \<and> ?Q p"
  proof
    assume e: "?r = ?fs1"
    from ch f1 [of p] show ?thesis unfolding e by simp
  next
    assume e: "?r = ?fs2"
    from ch g show ?thesis unfolding e by simp
  qed
  qed
  then show "map_of ?r p \<noteq> map_of fs p \<longrightarrow> map_of ?r p = None \<and> ?Q p" by blast
qed

lemma listed_glob: "glob ''/media'' ''media'' ''.flv'' listed_tree = [''/media/media1.flv'']"
  by (simp add: glob_def listed_tree_def in_dir_def glob_match_def suffix_to_prefix)

lemma bootstrap_glob_media: "glob ''/media'' ''media'' ''.flv'' bootstrap_tree = []"
  by (simp add: glob_def bootstrap_tree_def in_dir_def glob_match_def suffix_to_prefix)

lemma listed_digits: "digits_number ''/media/media1.flv'' = Inr (Suc 0)"
  using digits_number_segment [of "''/media''" "Suc 0"] usable_media
  by (simp add: usable_mediapath_def example_names)

lemma listed_age_pass:
  assumes "mediapath s = ''/media''" "t = 4600"
  shows "age_pass s t [''/media/media1.flv''] listed_tree = Done bootstrap_tree"
  using assms
  by (simp add: path_join_def listed_tree_def bootstrap_tree_def listed_digits os_remove_def
      exists_def str_nat_small digit_chr_def suffix_to_prefix)

lemma listed_no_age:
  assumes "mediapath s = ''/media''" "t = - 4400"
  shows "age_pass s t [''/media/media1.flv''] listed_tree = Done listed_tree"
  using assms by (simp add: path_join_def listed_tree_def)

lemma listed_usage_pass:
  assumes "mediapath s = ''/media''"
  shows "usage_pass s example_usage 0 [''/media/media1.flv''] listed_tree =
         Done (True, bootstrap_tree)"
proof -
  have 1: "usage_pass s example_usage (Suc 0) [] fs = Done (True, fs)" for fs
    by (subst usage_pass.simps) (simp add: example_usage_def)
  show ?thesis
    using assms
    by (subst usage_pass.simps)
      (simp add: 1 example_usage_def path_join_def listed_tree_def bootstrap_tree_def
        listed_digits os_remove_def exists_def str_nat_small digit_chr_def suffix_to_prefix)
qed

lemma idle_usage_pass: "usage_pass s (\<lambda>k. (10, 100)) 0 [] fs = Done (True, fs)"
  by (subst usage_pass.simps) simp

lemma example_sweep:
  assumes "''font.ttf'' \<in> set mf" "''djmarinara.py'' \<in> set mf" "''a.mp3'' \<notin> set mf"
  shows "sweep mf (cwd_glob example_workdir) example_workdir = Done (take 2 example_workdir)"
proof -
  have n: "path_name ''./font.ttf'' = ''font.ttf''" "path_name ''./djmarinara.py'' = ''djmarinara.py''"
    "path_name ''./a.mp3'' = ''a.mp3''"
    using path_name_cwd [of "''font.ttf''"] path_name_cwd [of "''djmarinara.py''"]
      path_name_cwd [of "''a.mp3''"] by simp_all
  have g: "cwd_glob example_workdir = [''./font.ttf'', ''./djmarinara.py'', ''./a.mp3'']"
    by (simp add: cwd_glob_def example_workdir_def)
  show ?thesis
    unfolding g using assms by (simp add: n os_remove_def exists_def example_workdir_def)
qed

lemma listed_cleanCache_age:
  assumes "mediapath s = ''/media''"
    and "''font.ttf'' \<in> set (manifest s)" "''djmarinara.py'' \<in> set (manifest s)"
    and "''a.mp3'' \<notin> set (manifest s)"
  shows "cleanCache s 10000 (\<lambda>k. (10, 100)) example_workdir listed_tree =
         Done (bootstrap_tree, take 2 example_workdir)"
proof -
  have a: "age_pass s (10000 - 5400) (natural_sort (glob (mediapath s) ''media'' ''.flv'' listed_tree))
             listed_tree = Done bootstrap_tree"
    using listed_age_pass [OF assms(1), of "10000 - 5400"]
    by (simp add: assms(1) listed_glob natural_sort_def)
  have u: "usage_pass s (\<lambda>k. (10, 100)) 0
             (natural_sort (glob (mediapath s) ''media'' ''.flv'' bootstrap_tree)) bootstrap_tree =
           Done (True, bootstrap_tree)"
    by (simp add: assms(1) bootstrap_glob_media natural_sort_def idle_usage_pass)
  show ?thesis
    using a u example_sweep [OF assms(2-4)] by (simp add: cleanCache_def)
qed

lemma listed_cleanCache_usage:
  assumes "mediapath s = ''/media''"
    and "''font.ttf'' \<in> set (manifest s)" "''djmarinara.py'' \<in> set (manifest s)"
    and "''a.mp3'' \<notin> set (manifest s)"
  shows "cleanCache s 1000 example_usage example_workdir listed_tree =
         Done (bootstrap_tree, take 2 example_workdir)"
proof -
  have a: "age_pass s (1000 - 5400) (natural_sort (glob (mediapath s) ''media'' ''.flv'' listed_tree))
             listed_tree = Done listed_tree"
    using listed_no_age [OF assms(1), of "1000 - 5400"]
    by (simp add: assms(1) listed_glob natural_sort_def)
  have u: "usage_pass s example_usage 0
             (natural_sort (glob (mediapath s) ''media'' ''.flv'' listed_tree)) listed_tree =
           Done (True, bootstrap_tree)"
    using listed_usage_pass [OF assms(1)]
    by (simp add: assms(1) listed_glob natural_sort_def)
  show ?thesis
    using a u example_sweep [OF assms(2-4)] by (simp add: cleanCache_def)
qed

lemma listed_state_facts:
  "mediapath listed_state = ''/media''"
  "''font.ttf'' \<in> set (manifest listed_state)"
  "''djmarinara.py'' \<in> set (manifest listed_state)"
  "''a.mp3'' \<notin> set (manifest listed_state)"
  "''media1.flv'' \<in> set (manifest listed_state)"
  by (simp_all add: listed_state_def example_mediapath)

lemma example_state_manifest:
  "''font.ttf'' \<in> set (manifest example_state)"
  "''djmarinara.py'' \<in> set (manifest example_state)"
  "''a.mp3'' \<notin> set (manifest example_state)"
  by (simp_all add: example_state_def initRun_def init_def)

text \<open>
  Claim C7, as stated, asks that a run of \<open>cleanCache\<close> never removes a file whose name is
  in the manifest. The age pass and the usage pass do not read the manifest: with
  \<open>media1.flv\<close> listed in it, the segment \<open>/media/media1.flv\<close> is removed by the age pass
  when it is older than 90 minutes (first run, disk at 10%), and by the usage pass when it
  is recent and the disk is at 85% (second run).
\<close>

theorem C7_listed_segment_removed:
  "''media1.flv'' \<in> set (manifest listed_state) \<and>
   map_of listed_tree ''/media/media1.flv'' = Some \<lparr>mtime = 500, body = ''one''\<rparr> \<and>
   cleanCache listed_state 10000 (\<lambda>k. (10, 100)) example_workdir listed_tree =
     Done ([(''/media/playlist0.txt'', \<lparr>mtime = 0, body = ffconcat ''startup.flv'' ''playlist1.txt''\<rparr>),
            (''/media/startup.flv'', \<lparr>mtime = 0, body = ''intro''\<rparr>)],
           [(''font.ttf'', \<lparr>mtime = 0, body = ''glyphs''\<rparr>),
            (''djmarinara.py'', \<lparr>mtime = 0, body = ''code''\<rparr>)]) \<and>
   cleanCache listed_state 1000 example_usage example_workdir listed_tree =
     Done ([(''/media/playlist0.txt'', \<lparr>mtime = 0, body = ffconcat ''startup.flv'' ''playlist1.txt''\<rparr>),
            (''/media/startup.flv'', \<lparr>mtime = 0, body = ''intro''\<rparr>)],
           [(''font.ttf'', \<lparr>mtime = 0, body = ''glyphs''\<rparr>),
            (''djmarinara.py'', \<lparr>mtime = 0, body = ''code''\<rparr>)])"
  using listed_cleanCache_age [OF listed_state_facts(1-4)]
    listed_cleanCache_usage [OF listed_state_facts(1-4)] listed_state_facts(5)
  by (simp add: bootstrap_tree_def example_workdir_def listed_tree_def)

theorem C7_manifest_in_sweep_witness:
  "cleanCache example_state 10000 (\<lambda>k. (10, 100)) example_workdir listed_tree =
     Done (bootstrap_tree, take 2 example_workdir) \<and>
   map_of (snd (state_after
       (cleanCache example_state 10000 (\<lambda>k. (10, 100)) example_workdir listed_tree)))
     ''font.ttf'' = Some \<lparr>mtime = 0, body = ''glyphs''\<rparr> \<and>
   map_of (fst (state_after
       (cleanCache example_state 10000 (\<lambda>k. (10, 100)) example_workdir listed_tree)))
     ''/media/media1.flv'' = None \<and>
   (''/media/media1.flv'' \<in>
      path_join ''/media'' ` set (glob ''/media'' ''media'' ''.flv'' listed_tree) \<or>
    (\<exists>N. ''/media/media1.flv'' = path_join ''/media'' (''playlist'' @ str_nat N @ ''.txt'')))"
proof -
  note run = listed_cleanCache_age [OF example_mediapath example_state_manifest]
  note t = C7_manifest_in_sweep
    [of example_state 10000 "\<lambda>k. (10, 100)" example_workdir listed_tree]
  have h1: "''font.ttf'' \<in> set (manifest example_state) \<and> CHR ''/'' \<notin> set ''font.ttf''"
    using example_state_manifest(1) by simp
  have h2: "map_of (fst (state_after
       (cleanCache example_state 10000 (\<lambda>k. (10, 100)) example_workdir listed_tree)))
      ''/media/media1.flv'' \<noteq> map_of listed_tree ''/media/media1.flv''"
    unfolding run by (simp add: bootstrap_tree_def listed_tree_def)
  from t h1 have a: "map_of (snd (state_after
       (cleanCache example_state 10000 (\<lambda>k. (10, 100)) example_workdir listed_tree)))
     ''font.ttf'' = map_of example_workdir ''font.ttf''" by blast
  from t h2 have b: "map_of (fst (state_after
       (cleanCache example_state 10000 (\<lambda>k. (10, 100)) example_workdir listed_tree)))
     ''/media/media1.flv'' = None \<and>
     (''/media/media1.flv'' \<in>
        path_join (mediapath example_state) `
          set (glob (mediapath example_state) ''media'' ''.flv'' listed_tree) \<or>
      (\<exists>N. ''/media/media1.flv'' =
         path_join (mediapath example_state) (''playlist'' @ str_nat N @ ''.txt'')))" by blast
  have c: "map_of example_workdir ''font.ttf'' = Some \<lparr>mtime = 0, body = ''glyphs''\<rparr>"
    by (simp add: example_workdir_def)
  from run a b c show ?thesis unfolding example_mediapath by simp
qed

end
